theory Spec2Isabelle
  imports Complex_Main
begin

section \<open>IemocapDataset: a shallow embedding of \<^verbatim>\<open>src/IemocapDataset.py\<close>\<close>

text \<open>
  The Python class \<^verbatim>\<open>IemocapDataset\<close> has three parts: the constructor, which
  parses the annotation files of the five sessions into a table; the accessor
  \<^verbatim>\<open>__getitem__\<close>; and the collation routine \<^verbatim>\<open>collate_fn\<close>, which cuts
  every waveform of a batch into frames of 400 samples taken every 160 samples.

  Every exception of the source is a value \<open>Inl e\<close> of the result type.
\<close>

datatype error =
    RuntimeError
  | ValueError
  | TypeError
  | IndexError
  | KeyError
  | OSError

subsection \<open>Tensors\<close>

text \<open>
  A two-dimensional tensor of shape \<open>(C, L)\<close> is the list of its \<open>C\<close> rows together with
  \<open>L\<close>, which a tensor with no row still has; every row of a tensor has \<open>L\<close> elements.
  The elements are only copied, and zeros are added, so their type is any type with a
  zero.
\<close>

datatype 'a tensor2 = Tensor2 (shape1: nat) (rows: "'a list list")

definition shape0 :: "'a tensor2 \<Rightarrow> nat" where
  "shape0 t = length (rows t)"

text \<open>A frame is a tensor of the fixed shape \<open>(n_channels, frame_length)\<close>; a tensor of
  shape \<open>(n, n_channels, frame_length)\<close> is the list of its \<open>n\<close> frames.\<close>

type_synonym 'a frame = "'a list list"

text \<open>
  A cell of the table of annotations. pandas holds a column either as Python objects, a
  cell being then the text of a field, or as \<^verbatim>\<open>float32\<close>, a cell being then the number that
  the text of the field denotes; the number is kept as that text, since nothing here computes
  with it. A missing value is \<^verbatim>\<open>None\<close> in the first kind of column and \<^verbatim>\<open>NaN\<close> in the
  second; the code treats both alike.
\<close>

datatype cell = Text string | Number string | Missing

text \<open>A sample is the dictionary that the accessor returns. Its waveform is a tensor; in
  the model with a store, further down, it is the address of one: hence the parameter.\<close>

record 'w sample =
  path :: string
  waveform :: 'w
  sample_rate :: int
  emotion :: "int option"
  activation :: cell
  valence :: cell
  dominance :: cell

subsection \<open>The constants of \<^verbatim>\<open>collate_fn\<close>\<close>

text \<open>\<^verbatim>\<open>np.int\<close> is, in the releases of NumPy that have it, Python's \<^verbatim>\<open>int\<close>: applied to
  a float it truncates towards zero.
  Floats are idealised as reals; the products and quotients below are far inside the range
  where double precision gives the same integer.\<close>

definition np_int :: "real \<Rightarrow> int" where
  "np_int x = (if 0 \<le> x then \<lfloor>x\<rfloor> else \<lceil>x\<rceil>)"

definition collate_sample_rate :: int where
  "collate_sample_rate = 16000"

definition n_channels :: nat where
  "n_channels = 1"

definition frame_length :: int where
  "frame_length = np_int (0.025 * real_of_int collate_sample_rate)"

definition step_length :: int where
  "step_length = np_int (0.01 * real_of_int collate_sample_rate)"

subsection \<open>The body of the loop over the batch\<close>

text \<open>Line 97: \<^verbatim>\<open>np.int(np.ceil((L - frame_length) / step_length) + 1)\<close>.\<close>

definition n_frames_of :: "int \<Rightarrow> int" where
  "n_frames_of L =
     np_int (real_of_int \<lceil>real_of_int (L - frame_length) / real_of_int step_length\<rceil> + 1)"

text \<open>Line 98.\<close>

definition padding_length_of :: "int \<Rightarrow> int \<Rightarrow> int" where
  "padding_length_of L n =
     (if L < frame_length then frame_length
      else frame_length + (n - 1) * step_length - L)"

text \<open>\<^verbatim>\<open>F.pad(t, (0, p))\<close>: constant padding of the last dimension on the right with
  zeros; a negative \<open>p\<close> crops, and a negative resulting size is an error.\<close>

definition F_pad :: "'a::zero tensor2 \<Rightarrow> int \<Rightarrow> error + 'a tensor2" where
  "F_pad t p =
     (let new_dim = int (shape1 t) + p in
      if new_dim < 0 then Inl RuntimeError
      else Inr (Tensor2 (nat new_dim)
                  (map (\<lambda>r. take (nat new_dim) r @ replicate (nat p) 0) (rows t))))"

text \<open>\<^verbatim>\<open>t[:, a:b]\<close> for \<open>0 \<le> a\<close> and \<open>0 \<le> b\<close>: both bounds are clipped to the length.\<close>

definition slice_cols :: "'a tensor2 \<Rightarrow> nat \<Rightarrow> nat \<Rightarrow> 'a tensor2" where
  "slice_cols t a b =
     Tensor2 (min b (shape1 t) - min a (shape1 t)) (map (\<lambda>r. take (b - a) (drop a r)) (rows t))"

text \<open>\<^verbatim>\<open>torch.zeros(n, n_channels, frame_length)\<close> refuses a negative dimension.\<close>

definition zero_frame :: "'a::zero frame" where
  "zero_frame = replicate n_channels (replicate (nat frame_length) 0)"

definition torch_zeros :: "int \<Rightarrow> error + 'a::zero frame list" where
  "torch_zeros n = (if n < 0 then Inl RuntimeError else Inr (replicate (nat n) zero_frame))"

text \<open>The right-hand side of \<^verbatim>\<open>item_frames[i] = src\<close> is broadcast to the shape of a
  frame: a dimension of the source must equal that of the frame or be 1.\<close>

definition broadcast_to_frame :: "'a tensor2 \<Rightarrow> error + 'a frame" where
  "broadcast_to_frame src =
     (if shape0 src = n_channels \<and> int (shape1 src) = frame_length then Inr (rows src)
      else if shape0 src = n_channels \<and> shape1 src = 1
        then Inr (map (\<lambda>r. replicate (nat frame_length) (hd r)) (rows src))
      else Inl RuntimeError)"

definition set_frame :: "'a frame list \<Rightarrow> nat \<Rightarrow> 'a tensor2 \<Rightarrow> error + 'a frame list" where
  "set_frame item_frames i src =
     (if i < length item_frames
      then (case broadcast_to_frame src of
              Inl e \<Rightarrow> Inl e
            | Inr f \<Rightarrow> Inr (item_frames[i := f]))
      else Inl IndexError)"

text \<open>Lines 102 and 103: \<^verbatim>\<open>for i in range(n_frames)\<close>.\<close>

fun fill_frames :: "'a tensor2 \<Rightarrow> nat list \<Rightarrow> 'a frame list \<Rightarrow> error + 'a frame list" where
  "fill_frames padded_waveform [] item_frames = Inr item_frames"
| "fill_frames padded_waveform (i # is) item_frames =
     (case set_frame item_frames i
             (slice_cols padded_waveform (i * nat step_length)
                (i * nat step_length + nat frame_length)) of
        Inl e \<Rightarrow> Inl e
      | Inr item_frames' \<Rightarrow> fill_frames padded_waveform is item_frames')"

text \<open>Lines 95 to 103: the frames of one item.\<close>

definition frame_item :: "'a::zero tensor2 \<Rightarrow> error + 'a frame list" where
  "frame_item w =
     (let original_waveform_length = int (shape1 w);
          n_frames = n_frames_of original_waveform_length;
          padding_length = padding_length_of original_waveform_length n_frames
      in case F_pad w padding_length of
           Inl e \<Rightarrow> Inl e
         | Inr padded_waveform \<Rightarrow>
             (case torch_zeros n_frames of
                Inl e \<Rightarrow> Inl e
              | Inr item_frames \<Rightarrow>
                  fill_frames padded_waveform [0..<nat n_frames] item_frames))"

text \<open>Lines 93 to 106: \<open>frames\<close> starts as \<^verbatim>\<open>torch.zeros(0, n_channels, frame_length)\<close> and
  grows by \<^verbatim>\<open>torch.cat\<close> along the first dimension.\<close>

fun collate_loop :: "('a::zero) tensor2 sample list \<Rightarrow> 'a frame list \<Rightarrow> error + 'a frame list" where
  "collate_loop [] frames = Inr frames"
| "collate_loop (item # batch) frames =
     (case frame_item (waveform item) of
        Inl e \<Rightarrow> Inl e
      | Inr item_frames \<Rightarrow> collate_loop batch (frames @ item_frames))"

definition collate_fn :: "('a::zero) tensor2 sample list \<Rightarrow> error + 'a frame list" where
  "collate_fn batch = collate_loop batch []"

subsection \<open>Strings\<close>

text \<open>
  A \<open>string\<close> is a list of 8-bit characters; a character stands for the code point of the
  same number, so the model covers text whose code points are below 256. The string methods
  are those of Python's \<^verbatim>\<open>str\<close>.
\<close>

definition TAB :: char where
  "TAB = CHR 0x09"

definition NL :: char where
  "NL = CHR 0x0A"

text \<open>\<^verbatim>\<open>str.isspace\<close> on the code points below 256.\<close>

definition isspace :: "char \<Rightarrow> bool" where
  "isspace c = (c \<in> set [CHR 0x09, CHR 0x0A, CHR 0x0B, CHR 0x0C, CHR 0x0D,
                            CHR 0x1C, CHR 0x1D, CHR 0x1E, CHR 0x1F, CHR 0x20,
                            CHR 0x85, CHR 0xA0])"

definition strip :: "string \<Rightarrow> string" where
  "strip s = rev (dropWhile isspace (rev (dropWhile isspace s)))"

definition startswith :: "string \<Rightarrow> string \<Rightarrow> bool" where
  "startswith s pre = (take (length pre) s = pre)"

definition endswith :: "string \<Rightarrow> string \<Rightarrow> bool" where
  "endswith s suf = (length suf \<le> length s \<and> drop (length s - length suf) s = suf)"

text \<open>\<^verbatim>\<open>s.replace(old, new)\<close> for a non-empty \<open>old\<close>: the occurrences are found from the
  left and do not overlap. (An empty \<open>old\<close> does not occur in the source.)\<close>

function replace :: "string \<Rightarrow> string \<Rightarrow> string \<Rightarrow> string" where
  "replace old new [] = []"
| "replace old new (c # cs) =
     (if old \<noteq> [] \<and> startswith (c # cs) old
      then new @ replace old new (drop (length old) (c # cs))
      else c # replace old new cs)"
  by pat_completeness auto
termination
  by (relation "measure (\<lambda>(old, new, s). length s)") (auto simp: neq_Nil_conv)

text \<open>\<^verbatim>\<open>s.split(sep)\<close> for a separator of one character: there is always at least one
  field.\<close>

fun split :: "char \<Rightarrow> string \<Rightarrow> string list" where
  "split sep [] = [[]]"
| "split sep (c # cs) =
     (if c = sep then [] # split sep cs
      else (case split sep cs of
              [] \<Rightarrow> [[c]]
            | f # fs \<Rightarrow> (c # f) # fs))"

text \<open>\<^verbatim>\<open>str(i)\<close> for a natural number.\<close>

fun str :: "nat \<Rightarrow> string" where
  "str i = (if i < 10 then [''0123456789'' ! i]
            else str (i div 10) @ [''0123456789'' ! (i mod 10)])"

declare str.simps [simp del]

text \<open>\<^verbatim>\<open>os.path.join(a, *p)\<close> of \<^verbatim>\<open>posixpath\<close>: a component that starts with the
  separator replaces what came before it; the separator is inserted unless the path so far
  is empty or ends with it.\<close>

definition join_step :: "string \<Rightarrow> string \<Rightarrow> string" where
  "join_step joined b =
     (if startswith b ''/'' then b
      else if joined = [] \<or> endswith joined ''/'' then joined @ b
      else joined @ ''/'' @ b)"

definition os_path_join :: "string \<Rightarrow> string list \<Rightarrow> string" where
  "os_path_join a p = foldl join_step a p"

subsection \<open>The file system and the audio loader\<close>

text \<open>
  The constructor reads the file system through \<^verbatim>\<open>os.listdir\<close> and \<^verbatim>\<open>open\<close>.
  \<open>listdir p\<close> is the listing of the directory \<open>p\<close>, in the order the system gives it;
  \<open>readlines p\<close> is the sequence of lines that iterating over the opened file \<open>p\<close> yields,
  each with its line terminator. Both raise.
\<close>

record filesystem =
  listdir :: "string \<Rightarrow> error + string list"
  readlines :: "string \<Rightarrow> error + string list"

subsection \<open>The constructor\<close>

definition ext_audio :: string where
  "ext_audio = ''.wav''"

text \<open>The dictionary \<^verbatim>\<open>_emotions\<close>.\<close>

definition emotions :: "string \<rightharpoonup> int" where
  "emotions = map_of [(''ang'', 1), (''hap'', 2), (''exc'', 3), (''sad'', 4), (''fru'', 5),
                      (''fea'', 6), (''sur'', 7), (''neu'', 8), (''xxx'', 9)]"

text \<open>Lines 39 to 44: what the comprehension makes of one selected line.\<close>

definition parse_line :: "string \<Rightarrow> string list" where
  "parse_line line =
     split TAB
       (replace '', '' [TAB]
         (replace '' - '' [TAB]
           (replace '']'' []
             (replace ''['' [] (strip line)))))"

text \<open>Lines 34 to 45: the loop over the evaluation files of one session.\<close>

fun read_files ::
  "filesystem \<Rightarrow> string \<Rightarrow> string list \<Rightarrow> string list list \<Rightarrow> error + string list list"
where
  "read_files fs dir [] data = Inr data"
| "read_files fs dir (file # files) data =
     (case readlines fs (os_path_join dir [file]) of
        Inl e \<Rightarrow> Inl e
      | Inr f \<Rightarrow>
          read_files fs dir files
            (data @ map parse_line (filter (\<lambda>line. startswith line ''['') f)))"

text \<open>Lines 26 to 45: the loop over the sessions.\<close>

definition session_path :: "string \<Rightarrow> nat \<Rightarrow> string" where
  "session_path r i = os_path_join r [''Session'' @ str i, ''dialog'', ''EmoEvaluation'']"

fun read_sessions ::
  "filesystem \<Rightarrow> string \<Rightarrow> nat list \<Rightarrow> string list list \<Rightarrow> error + string list list"
where
  "read_sessions fs r [] data = Inr data"
| "read_sessions fs r (i # is) data =
     (case listdir fs (session_path r i) of
        Inl e \<Rightarrow> Inl e
      | Inr names \<Rightarrow>
          (case read_files fs (session_path r i)
                  (filter (\<lambda>file. endswith file ''.txt'') names) data of
             Inl e \<Rightarrow> Inl e
           | Inr data' \<Rightarrow> read_sessions fs r is data'))"

text \<open>
  Line 48: \<^verbatim>\<open>pd.DataFrame(data, columns=[...7 names...], dtype=np.float32)\<close> on a list of
  lists. pandas first makes the rows rectangular: the width is that of the longest row, and
  a shorter row is filled on the right with missing values. It then raises \<^verbatim>\<open>ValueError\<close>
  when the width is not the number of column names. An empty list gives an empty table.

  Then \<^verbatim>\<open>dtype=np.float32\<close> is tried on each column by itself: a column of which every
  cell converts becomes a column of numbers, and any other column is left as it is, without
  an error. A missing value converts, to \<^verbatim>\<open>NaN\<close>; whether a text converts is decided by the
  conversion of NumPy, which accepts what Python's \<^verbatim>\<open>float\<close> accepts. That predicate on
  texts is the parameter \<open>castable\<close> of the model.
\<close>

definition n_columns :: nat where
  "n_columns = 7"

definition pad_row :: "string list \<Rightarrow> cell list" where
  "pad_row r = map Text r @ replicate (n_columns - length r) Missing"

definition converts :: "(string \<Rightarrow> bool) \<Rightarrow> cell \<Rightarrow> bool" where
  "converts castable c = (case c of Text s \<Rightarrow> castable s | Number s \<Rightarrow> True | Missing \<Rightarrow> True)"

definition to_float32 :: "cell \<Rightarrow> cell" where
  "to_float32 c = (case c of Text s \<Rightarrow> Number s | Number s \<Rightarrow> Number s | Missing \<Rightarrow> Missing)"

definition column :: "cell list list \<Rightarrow> nat \<Rightarrow> cell list" where
  "column table j = map (\<lambda>row. row ! j) table"

definition coerce_row :: "(string \<Rightarrow> bool) \<Rightarrow> cell list list \<Rightarrow> cell list \<Rightarrow> cell list" where
  "coerce_row castable table row =
     map (\<lambda>j. if list_all (converts castable) (column table j) then to_float32 (row ! j)
               else row ! j)
       [0..<n_columns]"

definition DataFrame :: "(string \<Rightarrow> bool) \<Rightarrow> string list list \<Rightarrow> error + cell list list" where
  "DataFrame castable data =
     (if data = [] then Inr []
      else if fold max (map length data) 0 \<noteq> n_columns then Inl ValueError
      else (let table = map pad_row data in Inr (map (coerce_row castable table) table)))"

text \<open>A row of the finished table. (The fields carry the prefix \<open>df_\<close> because the keys
  of a sample have the same names.)\<close>

record utterance =
  df_start :: cell
  df_end :: cell
  df_file :: string
  df_emotion :: "int option"
  df_activation :: cell
  df_valence :: cell
  df_dominance :: cell

text \<open>Line 51: \<^verbatim>\<open>Series.map\<close> with a dictionary gives the missing value \<^verbatim>\<open>NaN\<close>, here
  \<open>None\<close>, for a value that is not a key; it does not raise. The keys are texts, so a number
  is not a key.\<close>

definition map_emotions :: "cell \<Rightarrow> int option" where
  "map_emotions c = (case c of Text s \<Rightarrow> emotions s | Number s \<Rightarrow> None | Missing \<Rightarrow> None)"

text \<open>Line 54, for one value of the column: \<^verbatim>\<open>file[4]\<close> raises on a string of fewer
  than five characters, and neither a number nor a missing value can be indexed.\<close>

definition audio_path :: "string \<Rightarrow> error + string" where
  "audio_path file =
     (if length file \<le> 4 then Inl IndexError
      else Inr (os_path_join (''Session'' @ [file ! 4])
                  [''sentences'', ''wav'', take (length file - 5) file, file @ ext_audio]))"

definition file_path :: "cell \<Rightarrow> error + string" where
  "file_path c =
     (case c of
        Text file \<Rightarrow> audio_path file
      | Number s \<Rightarrow> Inl TypeError
      | Missing \<Rightarrow> Inl TypeError)"

fun file_paths :: "cell list \<Rightarrow> error + string list" where
  "file_paths [] = Inr []"
| "file_paths (c # cs) =
     (case file_path c of
        Inl e \<Rightarrow> Inl e
      | Inr p \<Rightarrow> (case file_paths cs of Inl e \<Rightarrow> Inl e | Inr ps \<Rightarrow> Inr (p # ps)))"

text \<open>Lines 51 and 54 on the rows of the table: the columns are, in order, \<^verbatim>\<open>start\<close>,
  \<^verbatim>\<open>end\<close>, \<^verbatim>\<open>file\<close>, \<^verbatim>\<open>emotion\<close>, \<^verbatim>\<open>activation\<close>, \<^verbatim>\<open>valence\<close>,
  \<^verbatim>\<open>dominance\<close>.\<close>

definition make_utterance :: "cell list \<Rightarrow> string \<Rightarrow> utterance" where
  "make_utterance r p =
     \<lparr>df_start = r ! 0, df_end = r ! 1, df_file = p, df_emotion = map_emotions (r ! 3),
      df_activation = r ! 4, df_valence = r ! 5, df_dominance = r ! 6\<rparr>"

definition finish_table :: "cell list list \<Rightarrow> error + utterance list" where
  "finish_table table =
     (case file_paths (map (\<lambda>r. r ! 2) table) of
        Inl e \<Rightarrow> Inl e
      | Inr ps \<Rightarrow> Inr (map2 make_utterance table ps))"

record dataset =
  root :: string
  df :: "utterance list"

definition collect_data :: "filesystem \<Rightarrow> string \<Rightarrow> error + string list list" where
  "collect_data fs r = read_sessions fs r [1..<6] []"

definition init :: "(string \<Rightarrow> bool) \<Rightarrow> filesystem \<Rightarrow> string \<Rightarrow> error + dataset" where
  "init castable fs r =
     (case collect_data fs r of
        Inl e \<Rightarrow> Inl e
      | Inr data \<Rightarrow>
          (case DataFrame castable data of
             Inl e \<Rightarrow> Inl e
           | Inr table \<Rightarrow>
               (case finish_table table of
                  Inl e \<Rightarrow> Inl e
                | Inr rs \<Rightarrow> Inr \<lparr>root = r, df = rs\<rparr>)))"

text \<open>What is left in a cell of the text of a field, and a field of a row of fields by its
  position; both serve to state what the table keeps of a line.\<close>

definition cell_text :: "cell \<Rightarrow> string option" where
  "cell_text c = (case c of Text s \<Rightarrow> Some s | Number s \<Rightarrow> Some s | Missing \<Rightarrow> None)"

definition field :: "string list \<Rightarrow> nat \<Rightarrow> string option" where
  "field row j = (if j < length row then Some (row ! j) else None)"

subsection \<open>The accessor\<close>

definition len :: "dataset \<Rightarrow> nat" where
  "len ds = length (df ds)"

text \<open>\<^verbatim>\<open>self.df.loc[idx, column]\<close> looks the label \<open>idx\<close> up in the index of the table,
  which is the range from 0 to the number of rows; a label that is not there is a
  \<^verbatim>\<open>KeyError\<close>.\<close>

definition df_loc :: "utterance list \<Rightarrow> int \<Rightarrow> error + utterance" where
  "df_loc table idx =
     (if 0 \<le> idx \<and> idx < int (length table) then Inr (table ! nat idx) else Inl KeyError)"

text \<open>\<^verbatim>\<open>__getitem__\<close> for an integer \<open>idx\<close>; \<open>load\<close> is \<^verbatim>\<open>torchaudio.load\<close>.\<close>

definition getitem ::
  "(string \<Rightarrow> error + 'a tensor2 \<times> int) \<Rightarrow> dataset \<Rightarrow> int \<Rightarrow> error + 'a tensor2 sample"
where
  "getitem load ds idx =
     (case df_loc (df ds) idx of
        Inl e \<Rightarrow> Inl e
      | Inr r \<Rightarrow>
          (let audio_name = os_path_join (root ds) [df_file r] in
           case load audio_name of
             Inl e \<Rightarrow> Inl e
           | Inr (w, rate) \<Rightarrow>
               Inr \<lparr>path = audio_name, waveform = w, sample_rate = rate,
                    emotion = df_emotion r, activation = df_activation r,
                    valence = df_valence r, dominance = df_dominance r\<rparr>))"

subsection \<open>The count of the annotation lines\<close>

text \<open>
  What the specification compares the size of the data set with: the number of the lines
  that begin with an opening bracket, over the evaluation text files of the five sessions.
  This definition follows the words of the specification, not the constructor; a directory
  or a file that cannot be read counts for nothing.
\<close>

definition bracketed_lines_in :: "filesystem \<Rightarrow> string \<Rightarrow> nat" where
  "bracketed_lines_in fs p =
     (case readlines fs p of
        Inl e \<Rightarrow> 0
      | Inr f \<Rightarrow> length (filter (\<lambda>line. startswith line ''['') f))"

definition evaluation_files :: "filesystem \<Rightarrow> string \<Rightarrow> nat \<Rightarrow> string list" where
  "evaluation_files fs r i =
     (case listdir fs (session_path r i) of
        Inl e \<Rightarrow> []
      | Inr names \<Rightarrow>
          map (\<lambda>file. os_path_join (session_path r i) [file])
            (filter (\<lambda>file. endswith file ''.txt'') names))"

definition total_bracketed_lines :: "filesystem \<Rightarrow> string \<Rightarrow> nat" where
  "total_bracketed_lines fs r =
     sum_list (map (bracketed_lines_in fs) (concat (map (evaluation_files fs r) [1..<6])))"

text \<open>The selected lines themselves, in the order in which the constructor meets them.\<close>

definition selected_lines :: "filesystem \<Rightarrow> string \<Rightarrow> string list" where
  "selected_lines fs r =
     concat (map (\<lambda>p. case readlines fs p of
                         Inl e \<Rightarrow> []
                       | Inr f \<Rightarrow> filter (\<lambda>line. startswith line ''['') f)
               (concat (map (evaluation_files fs r) [1..<6])))"

subsection \<open>\<^verbatim>\<open>collate_fn\<close> with a store\<close>

text \<open>
  In Python the batch is a list of references to dictionaries, and a tensor is a reference
  to storage that an assignment can change. To speak of what a call changes, the objects
  live in a store: the list of the objects allocated so far, an address being a position in
  it. An allocation appends to the store and returns the new position.

  The calls of the loop body are those of the library: \<^verbatim>\<open>F.pad\<close>, \<^verbatim>\<open>torch.zeros\<close>
  and \<^verbatim>\<open>torch.cat\<close> return a new tensor; \<^verbatim>\<open>padded_waveform[:, a:b]\<close> is a view, which
  has no storage of its own and is read when it is copied; \<^verbatim>\<open>item_frames[i] = ...\<close>
  writes into the storage of \<^verbatim>\<open>item_frames\<close>. Nothing is ever freed.
\<close>

type_synonym addr = nat

datatype 'a obj =
    TensorObj "'a tensor2"
  | FramesObj "'a frame list"
  | DictObj "addr sample"

type_synonym 'a store = "'a obj list"

definition present :: "'a store \<Rightarrow> addr \<Rightarrow> bool" where
  "present h a = (a < length h)"

definition alloc :: "'a store \<Rightarrow> 'a obj \<Rightarrow> addr \<times> 'a store" where
  "alloc h ob = (length h, h @ [ob])"

text \<open>Reading an object at an address, as an object of the kind the code expects.\<close>

definition get_tensor :: "'a store \<Rightarrow> addr \<Rightarrow> error + 'a tensor2" where
  "get_tensor h a =
     (if present h a then (case h ! a of TensorObj t \<Rightarrow> Inr t | _ \<Rightarrow> Inl TypeError)
      else Inl TypeError)"

definition get_frames :: "'a store \<Rightarrow> addr \<Rightarrow> error + 'a frame list" where
  "get_frames h a =
     (if present h a then (case h ! a of FramesObj fs \<Rightarrow> Inr fs | _ \<Rightarrow> Inl TypeError)
      else Inl TypeError)"

definition get_dict :: "'a store \<Rightarrow> addr \<Rightarrow> error + addr sample" where
  "get_dict h a =
     (if present h a then (case h ! a of DictObj d \<Rightarrow> Inr d | _ \<Rightarrow> Inl TypeError)
      else Inl TypeError)"

text \<open>Lines 102 and 103: the assignment changes the object at \<open>item_frames\<close> in place.\<close>

fun fill_frames_st ::
  "'a store \<Rightarrow> addr \<Rightarrow> addr \<Rightarrow> nat list \<Rightarrow> (error + unit) \<times> 'a store"
where
  "fill_frames_st h padded_waveform item_frames [] = (Inr (), h)"
| "fill_frames_st h padded_waveform item_frames (i # is) =
     (case get_tensor h padded_waveform of
        Inl e \<Rightarrow> (Inl e, h)
      | Inr padded \<Rightarrow>
          (case get_frames h item_frames of
             Inl e \<Rightarrow> (Inl e, h)
           | Inr fs \<Rightarrow>
               (case set_frame fs i
                       (slice_cols padded (i * nat step_length)
                          (i * nat step_length + nat frame_length)) of
                  Inl e \<Rightarrow> (Inl e, h)
                | Inr fs' \<Rightarrow>
                    fill_frames_st (h[item_frames := FramesObj fs'])
                      padded_waveform item_frames is)))"

text \<open>Lines 95 to 103.\<close>

definition frame_item_st :: "('a::zero) store \<Rightarrow> addr \<Rightarrow> (error + addr) \<times> 'a store" where
  "frame_item_st h w =
     (case get_tensor h w of
        Inl e \<Rightarrow> (Inl e, h)
      | Inr t \<Rightarrow>
          (let original_waveform_length = int (shape1 t);
               n_frames = n_frames_of original_waveform_length;
               padding_length = padding_length_of original_waveform_length n_frames
           in case F_pad t padding_length of
                Inl e \<Rightarrow> (Inl e, h)
              | Inr padded \<Rightarrow>
                  (let (padded_waveform, h1) = alloc h (TensorObj padded) in
                   case torch_zeros n_frames of
                     Inl e \<Rightarrow> (Inl e, h1)
                   | Inr z \<Rightarrow>
                       (let (item_frames, h2) = alloc h1 (FramesObj z) in
                        case fill_frames_st h2 padded_waveform item_frames
                               [0..<nat n_frames] of
                          (Inl e, h3) \<Rightarrow> (Inl e, h3)
                        | (Inr u, h3) \<Rightarrow> (Inr item_frames, h3)))))"

text \<open>Line 104: \<^verbatim>\<open>torch.cat((frames, item_frames), 0)\<close>.\<close>

definition torch_cat_st :: "'a store \<Rightarrow> addr \<Rightarrow> addr \<Rightarrow> (error + addr) \<times> 'a store" where
  "torch_cat_st h a b =
     (case get_frames h a of
        Inl e \<Rightarrow> (Inl e, h)
      | Inr fa \<Rightarrow>
          (case get_frames h b of
             Inl e \<Rightarrow> (Inl e, h)
           | Inr fb \<Rightarrow> (let (c, h') = alloc h (FramesObj (fa @ fb)) in (Inr c, h'))))"

text \<open>Lines 94 to 104.\<close>

fun collate_loop_st ::
  "('a::zero) store \<Rightarrow> addr list \<Rightarrow> addr \<Rightarrow> (error + addr) \<times> 'a store"
where
  "collate_loop_st h [] frames = (Inr frames, h)"
| "collate_loop_st h (item # batch) frames =
     (case get_dict h item of
        Inl e \<Rightarrow> (Inl e, h)
      | Inr d \<Rightarrow>
          (case frame_item_st h (waveform d) of
             (Inl e, h1) \<Rightarrow> (Inl e, h1)
           | (Inr item_frames, h1) \<Rightarrow>
               (case torch_cat_st h1 frames item_frames of
                  (Inl e, h2) \<Rightarrow> (Inl e, h2)
                | (Inr frames', h2) \<Rightarrow> collate_loop_st h2 batch frames')))"

text \<open>Lines 93 to 106.\<close>

definition collate_fn_st :: "('a::zero) store \<Rightarrow> addr list \<Rightarrow> (error + addr) \<times> 'a store" where
  "collate_fn_st h batch =
     (let (frames, h0) = alloc h (FramesObj []) in collate_loop_st h0 batch frames)"

text \<open>The batch that a list of addresses stands for in a store: every address is that of
  a dictionary whose waveform is the address of a tensor.\<close>

definition deref_item :: "'a store \<Rightarrow> addr \<Rightarrow> 'a tensor2 sample option" where
  "deref_item h a =
     (case get_dict h a of
        Inl e \<Rightarrow> None
      | Inr d \<Rightarrow>
          (case get_tensor h (waveform d) of
             Inl e \<Rightarrow> None
           | Inr t \<Rightarrow>
               Some \<lparr>path = path d, waveform = t, sample_rate = sample_rate d,
                     emotion = emotion d, activation = activation d,
                     valence = valence d, dominance = dominance d\<rparr>))"

fun deref_batch :: "'a store \<Rightarrow> addr list \<Rightarrow> 'a tensor2 sample list option" where
  "deref_batch h [] = Some []"
| "deref_batch h (a # as) =
     (case deref_item h a of
        None \<Rightarrow> None
      | Some item \<Rightarrow>
          (case deref_batch h as of None \<Rightarrow> None | Some items \<Rightarrow> Some (item # items)))"

subsection \<open>Example inputs\<close>

text \<open>An annotation line as the evaluation files have it, with an emotion label that is
  not in the dictionary; a line of comment; and a line that lacks the three last fields.\<close>

definition line_unknown_label :: string where
  "line_unknown_label =
     ''[6.2901 - 8.2357]'' @ [TAB] @ ''Ses01F_impro01_F000'' @ [TAB] @ ''foo'' @ [TAB]
       @ ''[2.5000, 2.5000, 2.5000]'' @ [NL]"

definition line_neutral :: string where
  "line_neutral =
     ''[10.0100 - 11.3925]'' @ [TAB] @ ''Ses01F_impro01_F001'' @ [TAB] @ ''neu'' @ [TAB]
       @ ''[2.5000, 2.5000, 2.5000]'' @ [NL]"

definition line_header :: string where
  "line_header = ''% [START_TIME - END_TIME] TURN_NAME EMOTION [V, A, D]'' @ [NL]"

definition line_short :: string where
  "line_short = ''[14.8872 - 18.0175]'' @ [TAB] @ ''Ses01F_impro01_F002'' @ [TAB] @ ''neu'' @ [NL]"

text \<open>A corpus under the directory \<^verbatim>\<open>corpus\<close>: one evaluation file with the given lines in
  the first session, beside an entry that is not a text file, and no file in the others.\<close>

definition corpus_with :: "string list \<Rightarrow> filesystem" where
  "corpus_with f =
     \<lparr>listdir = (\<lambda>p. if p = ''corpus/Session1/dialog/EmoEvaluation''
                      then Inr [''Ses01F_impro01.txt'', ''Categorical'']
                      else Inr []),
      readlines = (\<lambda>p. if p = ''corpus/Session1/dialog/EmoEvaluation/Ses01F_impro01.txt''
                        then Inr f
                        else Inl OSError)\<rparr>"

text \<open>For the examples, a predicate that agrees with the conversion to \<^verbatim>\<open>float32\<close> on the
  fields of the example lines: the text of an unsigned decimal number.\<close>

definition decimal_text :: "string \<Rightarrow> bool" where
  "decimal_text s =
     (list_ex (\<lambda>c. c \<in> set ''0123456789'') s
      \<and> list_all (\<lambda>c. c \<in> set ''0123456789.'') s
      \<and> length (filter (\<lambda>c. c = CHR ''.'') s) \<le> 1)"

text \<open>A data set of two utterances, and a loader that knows the audio file of the first
  one only.\<close>

definition example_dataset :: dataset where
  "example_dataset =
     \<lparr>root = ''corpus'',
      df = [\<lparr>df_start = Number ''10.0100'', df_end = Number ''11.3925'',
             df_file = ''Session1/sentences/wav/Ses01F_impro01/Ses01F_impro01_F001.wav'',
             df_emotion = Some 8, df_activation = Number ''2.5000'',
             df_valence = Number ''2.5000'', df_dominance = Number ''2.5000''\<rparr>,
            \<lparr>df_start = Number ''6.2901'', df_end = Number ''8.2357'',
             df_file = ''Session1/sentences/wav/Ses01F_impro01/Ses01F_impro01_F000.wav'',
             df_emotion = None, df_activation = Number ''2.5000'',
             df_valence = Number ''2.5000'', df_dominance = Number ''2.5000''\<rparr>]\<rparr>"

definition example_load :: "string \<Rightarrow> error + real tensor2 \<times> int" where
  "example_load p =
     (if p = ''corpus/Session1/sentences/wav/Ses01F_impro01/Ses01F_impro01_F001.wav''
      then Inr (Tensor2 3 [[1, 2, 3]], 16000)
      else Inl OSError)"

text \<open>A store with one waveform of 241 samples and the dictionary of a sample that refers
  to it.\<close>

definition example_store :: "real store" where
  "example_store =
     [TensorObj (Tensor2 241 [replicate 241 1]),
      DictObj \<lparr>path = ''corpus/a.wav'', waveform = 0, sample_rate = 16000, emotion = Some 8,
               activation = Number ''2.5000'', valence = Number ''2.5000'',
               dominance = Number ''2.5000''\<rparr>]"

section \<open>Properties of the framer\<close>

lemma frame_length_eq: "frame_length = 400"
  by (simp add: frame_length_def np_int_def collate_sample_rate_def)

lemma step_length_eq: "step_length = 160"
  by (simp add: step_length_def np_int_def collate_sample_rate_def)

lemma np_int_of_int: "np_int (real_of_int k + 1) = k + 1"
proof -
  have "real_of_int k + 1 = real_of_int (k + 1)" by simp
  then show ?thesis
    unfolding np_int_def by (simp only: floor_of_int ceiling_of_int if_cancel)
qed

lemma n_frames_of_div: "n_frames_of L = - ((400 - L) div 160) + 1"
proof -
  have "\<lceil>real_of_int (L - 400) / real_of_int 160\<rceil> = - ((400 - L) div 160)"
    by (simp only: ceiling_divide_eq_div minus_diff_eq)
  then show ?thesis
    unfolding n_frames_of_def frame_length_eq step_length_eq
    by (simp only: np_int_of_int)
qed

lemma fill_frames_fold:
  "\<forall>i\<in>set js. i < length fr \<and>
      broadcast_to_frame (slice_cols P (i * nat step_length) (i * nat step_length + nat frame_length)) = Inr (f i)
   \<Longrightarrow> fill_frames P js fr = Inr (fold (\<lambda>i fr. fr[i := f i]) js fr)"
  by (induction js arbitrary: fr) (simp_all add: set_frame_def)

lemma fold_update_upt:
  "n \<le> length fr \<Longrightarrow> fold (\<lambda>i fr. fr[i := f i]) [0..<n] fr = map f [0..<n] @ drop n fr"
proof (induction n)
  case 0
  then show ?case by simp
next
  case (Suc n)
  then have "n < length fr" by simp
  then have "drop n fr = fr ! n # drop (Suc n) fr"
    by (simp add: Cons_nth_drop_Suc)
  with Suc show ?case
    by (simp add: list_update_append)
qed


lemma F_pad_mono:
  "length c = L \<Longrightarrow> F_pad (Tensor2 L [c]) (int p) = Inr (Tensor2 (L + p) [c @ replicate p 0])"
  by (simp add: F_pad_def Let_def nat_add_distrib)

lemma broadcast_slice_mono:
  assumes "i * 160 + 400 \<le> length r"
  shows "broadcast_to_frame
           (slice_cols (Tensor2 (length r) [r]) (i * nat step_length)
              (i * nat step_length + nat frame_length))
         = Inr [take 400 (drop (i * 160) r)]"
  using assms
  by (simp add: broadcast_to_frame_def slice_cols_def shape0_def n_channels_def
      frame_length_eq step_length_eq)

lemma frame_item_mono:
  assumes len: "length c = L"
    and n: "n_frames_of (int L) = int n"
    and p: "padding_length_of (int L) (int n) = int p"
    and fit: "n = 0 \<or> (n - 1) * 160 + 400 \<le> L + p"
  shows "frame_item (Tensor2 L [c])
         = Inr (map (\<lambda>i. [take 400 (drop (i * 160) (c @ replicate p 0))]) [0..<n])"
proof -
  let ?r = "c @ replicate p 0"
  let ?f = "\<lambda>i. [take 400 (drop (i * 160) ?r)]"
  let ?z = "replicate n (zero_frame :: 'a frame)"
  have lr: "length ?r = L + p" using len by simp
  have slices: "\<forall>i\<in>set [0..<n]. i < length ?z \<and>
      broadcast_to_frame
        (slice_cols (Tensor2 (L + p) [?r]) (i * nat step_length)
           (i * nat step_length + nat frame_length)) = Inr (?f i)"
  proof
    fix i assume "i \<in> set [0..<n]"
    then have i: "i < n" by simp
    with fit have "i * 160 + 400 \<le> length ?r"
      unfolding lr by (cases n) auto
    from broadcast_slice_mono [OF this] i show "i < length ?z \<and>
      broadcast_to_frame
        (slice_cols (Tensor2 (L + p) [?r]) (i * nat step_length)
           (i * nat step_length + nat frame_length)) = Inr (?f i)"
      unfolding lr by simp
  qed
  have "fill_frames (Tensor2 (L + p) [?r]) [0..<n] ?z
        = Inr (fold (\<lambda>i fr. fr[i := ?f i]) [0..<n] ?z)"
    by (rule fill_frames_fold [OF slices])
  also have "fold (\<lambda>i fr. fr[i := ?f i]) [0..<n] ?z = map ?f [0..<n]"
    using fold_update_upt [of n ?z ?f] by simp
  finally have fill: "fill_frames (Tensor2 (L + p) [?r]) [0..<n] ?z = Inr (map ?f [0..<n])" .
  show ?thesis
    unfolding frame_item_def
    by (simp add: n p F_pad_mono [OF len] torch_zeros_def fill)
qed

lemma long_arith:
  fixes L :: nat
  assumes "400 \<le> L"
  defines "n \<equiv> (L - 400 + 159) div 160 + 1"
  shows "n_frames_of (int L) = int n"
    and "padding_length_of (int L) (int n) = int (400 + (n - 1) * 160 - L)"
    and "(n - 1) * 160 + 400 \<le> L + (400 + (n - 1) * 160 - L)"
    and "L \<le> 400 + (n - 1) * 160"
proof -
  show a: "n_frames_of (int L) = int n"
    unfolding n_frames_of_div n_def using assms(1) by (simp add: zdiv_int)
  show d: "L \<le> 400 + (n - 1) * 160"
    unfolding n_def using assms(1) by simp
  show "padding_length_of (int L) (int n) = int (400 + (n - 1) * 160 - L)"
    using d assms(1) unfolding padding_length_of_def frame_length_eq step_length_eq n_def
    by simp
  show "(n - 1) * 160 + 400 \<le> L + (400 + (n - 1) * 160 - L)"
    using d by simp
qed


lemma frame_item_long:
  assumes "length c = L" and "400 \<le> L"
  shows "frame_item (Tensor2 L [c]) =
         Inr (map (\<lambda>i. [take 400 (drop (i * 160)
                 (c @ replicate (nat (padding_length_of (int L) (n_frames_of (int L)))) 0))])
               [0..<nat (n_frames_of (int L))])"
proof -
  let ?n = "(L - 400 + 159) div 160 + 1"
  let ?p = "400 + (?n - 1) * 160 - L"
  note a = long_arith [OF assms(2)]
  have "frame_item (Tensor2 L [c]) =
        Inr (map (\<lambda>i. [take 400 (drop (i * 160) (c @ replicate ?p 0))]) [0..<?n])"
    by (rule frame_item_mono [OF assms(1) a(1) a(2)]) (rule disjI2, rule a(3))
  then show ?thesis
    by (simp only: a(1) a(2) nat_int)
qed

lemma short_arith:
  fixes L :: nat
  shows "L \<le> 80 \<Longrightarrow> n_frames_of (int L) = - 1"
    and "80 < L \<Longrightarrow> L \<le> 240 \<Longrightarrow> n_frames_of (int L) = 0"
    and "240 < L \<Longrightarrow> L < 400 \<Longrightarrow> n_frames_of (int L) = 1"
    and "L < 400 \<Longrightarrow> padding_length_of (int L) n = 400"
  unfolding n_frames_of_div padding_length_of_def frame_length_eq by simp_all

lemma frame_item_too_short:
  assumes "length c = L" and "L \<le> 80"
  shows "frame_item (Tensor2 L [c] :: 'a::zero tensor2) = Inl RuntimeError"
  using assms
  by (simp add: frame_item_def short_arith F_pad_def torch_zeros_def)

lemma frame_item_no_frame:
  assumes "length c = L" and "80 < L" and "L \<le> 240"
  shows "frame_item (Tensor2 L [c] :: 'a::zero tensor2) = Inr []"
  using assms
  by (simp add: frame_item_def short_arith F_pad_def torch_zeros_def)

lemma frame_item_one_frame:
  assumes "length c = L" and "240 < L" and "L < 400"
  shows "frame_item (Tensor2 L [c]) = Inr [[c @ replicate (400 - L) 0]]"
proof -
  have n: "n_frames_of (int L) = int 1" using assms by (simp add: short_arith)
  have p: "padding_length_of (int L) (int 1) = int 400" using assms by (simp add: short_arith)
  have "frame_item (Tensor2 L [c]) =
        Inr (map (\<lambda>i. [take 400 (drop (i * 160) (c @ replicate 400 0))]) [0..<1])"
    by (rule frame_item_mono [OF assms(1) n p]) simp
  then show ?thesis using assms by simp
qed


lemma collate_loop_append:
  "collate_loop batch frames =
     (case collate_loop batch [] of Inl e \<Rightarrow> Inl e | Inr fs \<Rightarrow> Inr (frames @ fs))"
proof (induction batch arbitrary: frames)
  case Nil
  then show ?case by simp
next
  case (Cons item batch)
  show ?case
  proof (cases "frame_item (waveform item)")
    case (Inl e)
    then show ?thesis by simp
  next
    case (Inr item_frames)
    have "collate_loop (item # batch) frames = collate_loop batch (frames @ item_frames)"
      using Inr by simp
    also have "\<dots> = (case collate_loop batch [] of Inl e \<Rightarrow> Inl e
                      | Inr fs \<Rightarrow> Inr ((frames @ item_frames) @ fs))"
      by (rule Cons.IH)
    finally show ?thesis
      using Inr Cons.IH [of item_frames] by (simp split: sum.splits)
  qed
qed

lemma collate_fn_Cons:
  "collate_fn (item # batch) =
     (case frame_item (waveform item) of
        Inl e \<Rightarrow> Inl e
      | Inr item_frames \<Rightarrow>
          (case collate_fn batch of Inl e \<Rightarrow> Inl e | Inr fs \<Rightarrow> Inr (item_frames @ fs)))"
proof (cases "frame_item (waveform item)")
  case (Inl e)
  then show ?thesis by (simp add: collate_fn_def)
next
  case (Inr item_frames)
  then show ?thesis
    unfolding collate_fn_def using collate_loop_append [of batch item_frames] by simp
qed

lemma collate_fn_Nil: "collate_fn [] = Inr []"
  by (simp add: collate_fn_def)

lemma collate_fn_waveforms:
  "map waveform batch = map waveform batch' \<Longrightarrow> collate_fn batch = collate_fn batch'"
proof (induction batch arbitrary: batch')
  case Nil
  then show ?case by simp
next
  case (Cons item batch)
  then obtain item' rest where b': "batch' = item' # rest"
    and w: "waveform item = waveform item'" and r: "map waveform batch = map waveform rest"
    by (cases batch') auto
  show ?case
    unfolding b' collate_fn_Cons w Cons.IH [OF r] ..
qed

section \<open>Properties of the index builder\<close>

lemma join_step_plain:
  "b \<noteq> [] \<Longrightarrow> hd b \<noteq> CHR ''/'' \<Longrightarrow> joined \<noteq> [] \<Longrightarrow> last joined \<noteq> CHR ''/''
   \<Longrightarrow> join_step joined b = joined @ ''/'' @ b"
  by (cases b; cases joined rule: rev_cases) (simp_all add: join_step_def startswith_def endswith_def)

lemma audio_path_plain:
  assumes "5 < length file" and "CHR ''/'' \<notin> set file"
  shows "audio_path file =
         Inr (''Session'' @ [file ! 4] @ ''/sentences/wav/'' @ take (length file - 5) file
              @ ''/'' @ file @ ''.wav'')"
proof -
  let ?g = "take (length file - 5) file"
  have f: "file \<noteq> []" using assms(1) by auto
  have hdf: "hd file \<noteq> CHR ''/''" using assms(2) f by (cases "file") auto
  have g: "?g \<noteq> []" using assms(1) by auto
  have hdg: "hd ?g \<noteq> CHR ''/''" using hdf g by (cases "file") auto
  have "last ?g \<in> set file" using g by (metis in_set_takeD last_in_set)
  then have lastg: "last ?g \<noteq> CHR ''/''" using assms(2) by auto
  have "4 < length file" using assms(1) by simp
  then have "file ! 4 \<in> set file" by (rule nth_mem)
  then have c4: "file ! 4 \<noteq> CHR ''/''" using assms(2) by auto
  have s1: "join_step (''Session'' @ [file ! 4]) ''sentences'' = ''Session'' @ [file ! 4] @ ''/sentences''"
    using c4 by (simp add: join_step_def startswith_def endswith_def)
  have s2: "join_step (''Session'' @ [file ! 4] @ ''/sentences'') ''wav''
            = ''Session'' @ [file ! 4] @ ''/sentences/wav''"
    by (simp add: join_step_def startswith_def endswith_def)
  have s3: "join_step (''Session'' @ [file ! 4] @ ''/sentences/wav'') ?g
            = (''Session'' @ [file ! 4] @ ''/sentences/wav'') @ ''/'' @ ?g"
    by (rule join_step_plain [OF g hdg]) simp_all
  have s4: "join_step ((''Session'' @ [file ! 4] @ ''/sentences/wav'') @ ''/'' @ ?g) (file @ ''.wav'')
            = ((''Session'' @ [file ! 4] @ ''/sentences/wav'') @ ''/'' @ ?g) @ ''/'' @ (file @ ''.wav'')"
    by (rule join_step_plain) (use f hdf g lastg in simp_all)
  have nle: "\<not> length file \<le> 4" using assms(1) by simp
  have "audio_path file =
        Inr (join_step (join_step (join_step (join_step (''Session'' @ [file ! 4])
               ''sentences'') ''wav'') ?g) (file @ ''.wav''))"
    unfolding audio_path_def os_path_join_def ext_audio_def
    by (simp only: nle if_False foldl.simps)
  also have "\<dots> = Inr (((''Session'' @ [file ! 4] @ ''/sentences/wav'') @ ''/'' @ ?g)
                        @ ''/'' @ (file @ ''.wav''))"
    by (simp only: s1 s2 s3 s4)
  also have "\<dots> = Inr (''Session'' @ [file ! 4] @ ''/sentences/wav/'' @ ?g
                        @ ''/'' @ file @ ''.wav'')"
    by simp
  finally show ?thesis .
qed


lemma read_files_data:
  "read_files fs dir files data = Inr data' \<Longrightarrow>
   data' = data @ concat (map (\<lambda>file.
              case readlines fs (os_path_join dir [file]) of
                Inl e \<Rightarrow> []
              | Inr f \<Rightarrow> map parse_line (filter (\<lambda>line. startswith line ''['') f)) files)"
proof (induction files arbitrary: data)
  case Nil
  then show ?case by simp
next
  case (Cons name files)
  from Cons.prems obtain f where f: "readlines fs (os_path_join dir [name]) = Inr f"
    by (cases "readlines fs (os_path_join dir [name])") auto
  with Cons.prems have "read_files fs dir files
      (data @ map parse_line (filter (\<lambda>line. startswith line ''['') f)) = Inr data'"
    by simp
  from Cons.IH [OF this] f show ?case by simp
qed

lemma read_files_length:
  assumes "read_files fs dir files data = Inr data'"
  shows "length data' =
         length data + sum_list (map (\<lambda>file. bracketed_lines_in fs (os_path_join dir [file])) files)"
proof -
  have "\<And>file. length (case readlines fs (os_path_join dir [file]) of
                Inl e \<Rightarrow> []
              | Inr f \<Rightarrow> map parse_line (filter (\<lambda>line. startswith line ''['') f))
              = bracketed_lines_in fs (os_path_join dir [file])"
    by (simp add: bracketed_lines_in_def split: sum.splits)
  then show ?thesis
    unfolding read_files_data [OF assms]
    by (simp add: length_concat comp_def)
qed

lemma read_sessions_length:
  "read_sessions fs r sessions data = Inr data' \<Longrightarrow>
   length data' = length data
     + sum_list (map (bracketed_lines_in fs) (concat (map (evaluation_files fs r) sessions)))"
proof (induction sessions arbitrary: data)
  case Nil
  then show ?case by simp
next
  case (Cons i sessions)
  from Cons.prems obtain names where names: "listdir fs (session_path r i) = Inr names"
    by (cases "listdir fs (session_path r i)") auto
  let ?files = "filter (\<lambda>file. endswith file ''.txt'') names"
  from Cons.prems names obtain data1
    where d1: "read_files fs (session_path r i) ?files data = Inr data1"
      and rest: "read_sessions fs r sessions data1 = Inr data'"
    by (cases "read_files fs (session_path r i) ?files data") auto
  have "length data1 = length data
          + sum_list (map (bracketed_lines_in fs) (evaluation_files fs r i))"
    using read_files_length [OF d1] by (simp add: evaluation_files_def names comp_def)
  with Cons.IH [OF rest] show ?case by simp
qed

lemma DataFrame_length: "DataFrame castable data = Inr table \<Longrightarrow> length table = length data"
  by (auto simp: DataFrame_def Let_def split: if_splits)

lemma file_paths_length: "file_paths cs = Inr ps \<Longrightarrow> length ps = length cs"
  by (induction cs arbitrary: ps) (auto split: sum.splits)

lemma finish_table_length: "finish_table table = Inr rs \<Longrightarrow> length rs = length table"
  by (auto simp: finish_table_def split: sum.splits dest: file_paths_length)

lemma init_Inr:
  assumes "init castable fs r = Inr ds"
  obtains data table where "collect_data fs r = Inr data"
    and "DataFrame castable data = Inr table"
    and "finish_table table = Inr (df ds)" and "root ds = r"
  using assms unfolding init_def by (auto split: sum.splits)

lemma fold_max_ge: "fold max ns (m::nat) = Max (set (m # ns))"
  by (simp only: Max.set_eq_fold)


lemma finish_table_emotions:
  assumes "finish_table table = Inr rs"
  shows "map df_emotion rs = map (\<lambda>row. map_emotions (row ! 3)) table"
proof -
  from assms obtain ps where ps: "file_paths (map (\<lambda>r. r ! 2) table) = Inr ps"
    and rs: "rs = map2 make_utterance table ps"
    by (auto simp: finish_table_def split: sum.splits)
  from file_paths_length [OF ps] have len: "length ps = length table" by simp
  show ?thesis
    unfolding rs using len
    by (induction table ps rule: list_induct2') (simp_all add: make_utterance_def)
qed

lemma file_paths_map: "file_paths cs = Inr ps \<Longrightarrow> map file_path cs = map Inr ps"
  by (induction cs arbitrary: ps) (auto split: sum.splits)

lemma finish_table_files:
  assumes "finish_table table = Inr rs"
  shows "map (\<lambda>row. file_path (row ! 2)) table = map (\<lambda>u. Inr (df_file u)) rs"
proof -
  from assms obtain ps where ps: "file_paths (map (\<lambda>r. r ! 2) table) = Inr ps"
    and rs: "rs = map2 make_utterance table ps"
    by (auto simp: finish_table_def split: sum.splits)
  from file_paths_length [OF ps] have len: "length ps = length table" by simp
  have files: "map df_file rs = ps"
    unfolding rs using len
    by (induction table ps rule: list_induct2') (simp_all add: make_utterance_def)
  have "map (\<lambda>row. file_path (row ! 2)) table = map file_path (map (\<lambda>r. r ! 2) table)"
    by (simp add: comp_def)
  also have "\<dots> = map Inr ps" by (rule file_paths_map [OF ps])
  also have "\<dots> = map Inr (map df_file rs)" by (simp only: files)
  also have "\<dots> = map (\<lambda>u. Inr (df_file u)) rs" by (simp add: comp_def)
  finally show ?thesis .
qed

lemma widest_row:
  assumes "data \<noteq> []"
  shows "fold max (map length data) 0 \<noteq> n_columns \<longleftrightarrow>
         (\<exists>row\<in>set data. 7 < length row) \<or> (\<forall>row\<in>set data. length row < 7)"
proof -
  let ?S = "set (0 # map length data)"
  have fin: "finite ?S" and ne: "?S \<noteq> {}" by simp_all
  have eq: "Max ?S = 7 \<longleftrightarrow> 7 \<in> ?S \<and> (\<forall>n\<in>?S. n \<le> 7)"
    using Max_eq_iff [OF fin ne, of 7] by blast
  have "7 \<in> ?S \<and> (\<forall>n\<in>?S. n \<le> 7) \<longleftrightarrow>
        \<not> ((\<exists>row\<in>set data. 7 < length row) \<or> (\<forall>row\<in>set data. length row < 7))"
    by (auto simp: not_less) metis
  with eq show ?thesis
    unfolding fold_max_ge n_columns_def by blast
qed


lemma widest_row_7:
  assumes "data \<noteq> []"
  shows "fold max (map length data) 0 = n_columns \<longleftrightarrow>
         (\<forall>row\<in>set data. length row \<le> 7) \<and> (\<exists>row\<in>set data. length row = 7)"
  using widest_row [OF assms] by (auto simp: not_less not_le) force+

lemma length_pad_row: "length r \<le> 7 \<Longrightarrow> length (pad_row r) = 7"
  by (simp add: pad_row_def n_columns_def)

lemma nth_pad_row:
  "j < 7 \<Longrightarrow> length r \<le> 7 \<Longrightarrow> pad_row r ! j = (if j < length r then Text (r ! j) else Missing)"
  by (simp add: pad_row_def n_columns_def nth_append)

lemma length_coerce_row: "length (coerce_row castable table row) = 7"
  by (simp add: coerce_row_def n_columns_def)

lemma nth_coerce_row:
  "j < 7 \<Longrightarrow> coerce_row castable table row ! j =
     (if list_all (converts castable) (column table j) then to_float32 (row ! j) else row ! j)"
  by (simp add: coerce_row_def n_columns_def)

lemma cell_text_to_float32: "cell_text (to_float32 c) = cell_text c"
  by (cases c) (simp_all add: cell_text_def to_float32_def)

lemma cell_text_pad_row:
  "j < 7 \<Longrightarrow> length r \<le> 7 \<Longrightarrow> cell_text (pad_row r ! j) = field r j"
  by (simp add: nth_pad_row cell_text_def field_def)

lemma cell_text_coerce_row:
  "j < 7 \<Longrightarrow> length r \<le> 7 \<Longrightarrow>
   cell_text (coerce_row castable table (pad_row r) ! j) = field r j"
  by (simp add: nth_coerce_row cell_text_to_float32 cell_text_pad_row)

lemma column_converts:
  assumes "\<forall>row\<in>set data. length row \<le> 7" and "j < 7"
  shows "list_all (converts castable) (column (map pad_row data) j) \<longleftrightarrow>
         (\<forall>row\<in>set data. j < length row \<longrightarrow> castable (row ! j))"
proof -
  have "\<And>row. row \<in> set data \<Longrightarrow>
          converts castable (pad_row row ! j) = (j < length row \<longrightarrow> castable (row ! j))"
    using assms by (simp add: nth_pad_row converts_def)
  then show ?thesis
    by (simp add: column_def list_all_iff)
qed

lemma DataFrame_Inr:
  "DataFrame castable data = Inr table \<longleftrightarrow>
     (data = [] \<and> table = []) \<or>
     (data \<noteq> [] \<and> fold max (map length data) 0 = n_columns
      \<and> table = map (coerce_row castable (map pad_row data)) (map pad_row data))"
  by (auto simp: DataFrame_def Let_def)

lemma DataFrame_Inl:
  "DataFrame castable data = Inl e \<longleftrightarrow>
     data \<noteq> [] \<and> fold max (map length data) 0 \<noteq> n_columns \<and> e = ValueError"
  by (auto simp: DataFrame_def Let_def)

lemma file_path_Inr:
  "file_path c = Inr p \<longleftrightarrow> (\<exists>s. c = Text s \<and> 4 < length s \<and> audio_path s = Inr p)"
  by (cases c) (auto simp: file_path_def audio_path_def)

lemma file_paths_Inr_iff:
  "(\<exists>ps. file_paths cs = Inr ps) \<longleftrightarrow> (\<forall>c\<in>set cs. \<exists>s. c = Text s \<and> 4 < length s)"
proof (induction cs)
  case Nil
  then show ?case by simp
next
  case (Cons c cs)
  have one: "(\<exists>p. file_path c = Inr p) \<longleftrightarrow> (\<exists>s. c = Text s \<and> 4 < length s)"
    by (cases c) (auto simp: file_path_def audio_path_def)
  show ?case
  proof (cases "file_path c")
    case (Inl e)
    with one show ?thesis by auto
  next
    case (Inr p)
    with one have c: "\<exists>s. c = Text s \<and> 4 < length s" by auto
    show ?thesis
    proof (cases "file_paths cs")
      case (Inl e)
      with Inr Cons.IH show ?thesis by auto
    next
      case ps: (Inr ps)
      with Inr Cons.IH c show ?thesis by auto
    qed
  qed
qed

lemma finish_table_Inl:
  "finish_table table = Inl e \<longleftrightarrow> file_paths (map (\<lambda>row. row ! 2) table) = Inl e"
  by (auto simp: finish_table_def split: sum.splits)

lemma finish_table_Inr_iff:
  "(\<exists>rs. finish_table table = Inr rs) \<longleftrightarrow> (\<exists>ps. file_paths (map (\<lambda>row. row ! 2) table) = Inr ps)"
  by (auto simp: finish_table_def split: sum.splits)

lemma init_Inl:
  "init castable fs r = Inl e \<longleftrightarrow>
     collect_data fs r = Inl e
     \<or> (\<exists>data. collect_data fs r = Inr data
          \<and> (DataFrame castable data = Inl e
              \<or> (\<exists>table. DataFrame castable data = Inr table
                    \<and> file_paths (map (\<lambda>row. row ! 2) table) = Inl e)))"
  by (auto simp: init_def finish_table_def split: sum.splits)

lemma file_column:
  assumes w: "\<forall>row\<in>set data. length row \<le> 7"
  shows "(\<forall>c\<in>set (map (\<lambda>row. row ! 2)
                (map (coerce_row castable (map pad_row data)) (map pad_row data))).
            \<exists>s. c = Text s \<and> 4 < length s)
         \<longleftrightarrow> (\<forall>row\<in>set data. 3 \<le> length row \<and> 5 \<le> length (row ! 2))
             \<and> (data = [] \<or> (\<exists>row\<in>set data. \<not> castable (row ! 2)))"
proof -
  let ?T = "map pad_row data"
  let ?conv = "list_all (converts castable) (column ?T 2)"
  have conv: "?conv \<longleftrightarrow> (\<forall>row\<in>set data. 2 < length row \<longrightarrow> castable (row ! 2))"
    by (rule column_converts [OF w]) simp
  have cellc: "\<And>row. row \<in> set data \<Longrightarrow>
      coerce_row castable ?T (pad_row row) ! 2 =
        (if ?conv then to_float32 (if 2 < length row then Text (row ! 2) else Missing)
         else (if 2 < length row then Text (row ! 2) else Missing))"
    using w by (simp add: nth_coerce_row nth_pad_row)
  have lhs: "(\<forall>c\<in>set (map (\<lambda>row. row ! 2) (map (coerce_row castable ?T) ?T)).
               \<exists>s. c = Text s \<and> 4 < length s)
             \<longleftrightarrow> (\<forall>row\<in>set data. \<exists>s. coerce_row castable ?T (pad_row row) ! 2 = Text s
                                          \<and> 4 < length s)"
    by auto
  show ?thesis
  proof (cases ?conv)
    case True
    then have "\<And>row. row \<in> set data \<Longrightarrow>
        \<not> (\<exists>s. coerce_row castable ?T (pad_row row) ! 2 = Text s \<and> 4 < length s)"
      by (simp add: cellc to_float32_def)
    moreover from True conv
    have "\<And>row. row \<in> set data \<Longrightarrow> 3 \<le> length row \<Longrightarrow> castable (row ! 2)" by auto
    ultimately show ?thesis unfolding lhs by (cases data) auto
  next
    case False
    then have cell: "\<And>row. row \<in> set data \<Longrightarrow>
        coerce_row castable ?T (pad_row row) ! 2 =
          (if 2 < length row then Text (row ! 2) else Missing)"
      by (simp add: cellc)
    from False conv obtain row0 where r0: "row0 \<in> set data" "\<not> castable (row0 ! 2)" by auto
    have "(\<forall>row\<in>set data. \<exists>s. coerce_row castable ?T (pad_row row) ! 2 = Text s
                                          \<and> 4 < length s)
          \<longleftrightarrow> (\<forall>row\<in>set data. 3 \<le> length row \<and> 5 \<le> length (row ! 2))"
      by (rule ball_cong [OF refl]) (auto simp: cell)
    with r0 show ?thesis unfolding lhs by auto
  qed
qed

lemma init_succeeds_iff:
  assumes "collect_data fs r = Inr data"
  shows "(\<exists>ds. init castable fs r = Inr ds) \<longleftrightarrow>
         data = [] \<or>
         ((\<forall>row\<in>set data. length row \<le> 7) \<and> (\<exists>row\<in>set data. length row = 7)
          \<and> (\<forall>row\<in>set data. 3 \<le> length row \<and> 5 \<le> length (row ! 2))
          \<and> (\<exists>row\<in>set data. \<not> castable (row ! 2)))"
proof (cases "data = []")
  case True
  with assms show ?thesis by (simp add: init_def DataFrame_def finish_table_def)
next
  case False
  let ?T = "map pad_row data"
  let ?table = "map (coerce_row castable ?T) ?T"
  show ?thesis
  proof (cases "fold max (map length data) 0 = n_columns")
    case w: True
    then have w7: "(\<forall>row\<in>set data. length row \<le> 7) \<and> (\<exists>row\<in>set data. length row = 7)"
      using widest_row_7 [OF False] by simp
    have df: "DataFrame castable data = Inr ?table"
      using False w by (simp add: DataFrame_Inr)
    have "(\<exists>ds. init castable fs r = Inr ds) \<longleftrightarrow> (\<exists>rs. finish_table ?table = Inr rs)"
      using assms df by (auto simp: init_def split: sum.splits)
    also have "\<dots> \<longleftrightarrow> (\<exists>ps. file_paths (map (\<lambda>row. row ! 2) ?table) = Inr ps)"
      by (rule finish_table_Inr_iff)
    also have "\<dots> \<longleftrightarrow> (\<forall>c\<in>set (map (\<lambda>row. row ! 2) ?table). \<exists>s. c = Text s \<and> 4 < length s)"
      by (rule file_paths_Inr_iff)
    also have "\<dots> \<longleftrightarrow> (\<forall>row\<in>set data. 3 \<le> length row \<and> 5 \<le> length (row ! 2))
             \<and> (data = [] \<or> (\<exists>row\<in>set data. \<not> castable (row ! 2)))"
      using w7 by (intro file_column) simp
    finally show ?thesis using False w7 by simp
  next
    case w: False
    then have "\<not> ((\<forall>row\<in>set data. length row \<le> 7) \<and> (\<exists>row\<in>set data. length row = 7))"
      using widest_row_7 [OF False] by simp
    moreover have "DataFrame castable data = Inl ValueError"
      using False w by (simp add: DataFrame_Inl)
    with assms have "init castable fs r = Inl ValueError" by (simp add: init_def)
    ultimately show ?thesis using False by auto
  qed
qed

lemma init_ValueError:
  assumes "collect_data fs r = Inr data" and "data \<noteq> []"
    and "(\<exists>row\<in>set data. 7 < length row) \<or> (\<forall>row\<in>set data. length row < 7)"
  shows "init castable fs r = Inl ValueError"
proof -
  from widest_row [OF assms(2)] assms(3)
  have "fold max (map length data) 0 \<noteq> n_columns" by simp
  with assms(2) have "DataFrame castable data = Inl ValueError" by (simp add: DataFrame_Inl)
  with assms(1) show ?thesis by (simp add: init_def)
qed

lemma file_paths_nth:
  assumes "file_paths cs = Inr ps" and "i < length cs"
  shows "file_path (cs ! i) = Inr (ps ! i)"
proof -
  from file_paths_map [OF assms(1)] have "map file_path cs ! i = map Inr ps ! i" by simp
  with assms(2) file_paths_length [OF assms(1)] show ?thesis by simp
qed

lemma init_rows:
  assumes c: "collect_data fs r = Inr data" and ok: "init castable fs r = Inr ds"
    and i: "i < length data"
  shows "length (df ds) = length data"
    and "audio_path (data ! i ! 2) = Inr (df_file (df ds ! i))"
    and "cell_text (df_start (df ds ! i)) = field (data ! i) 0"
    and "cell_text (df_end (df ds ! i)) = field (data ! i) 1"
    and "cell_text (df_activation (df ds ! i)) = field (data ! i) 4"
    and "cell_text (df_valence (df ds ! i)) = field (data ! i) 5"
    and "cell_text (df_dominance (df ds ! i)) = field (data ! i) 6"
    and "df_emotion (df ds ! i) =
           (if \<forall>row\<in>set data. 3 < length row \<longrightarrow> castable (row ! 3) then None
            else case field (data ! i) 3 of None \<Rightarrow> None | Some l \<Rightarrow> emotions l)"
proof -
  from i have ne: "data \<noteq> []" by auto
  let ?T = "map pad_row data"
  let ?table = "map (coerce_row castable ?T) ?T"
  from ok c obtain table where d: "DataFrame castable data = Inr table"
    and f: "finish_table table = Inr (df ds)"
    by (auto simp: init_def split: sum.splits)
  from d ne have w: "fold max (map length data) 0 = n_columns" and table: "table = ?table"
    by (simp_all add: DataFrame_Inr)
  from w have w7: "\<forall>row\<in>set data. length row \<le> 7"
    using widest_row_7 [OF ne] by simp
  with i have li: "length (data ! i) \<le> 7" by simp
  from f obtain ps where ps: "file_paths (map (\<lambda>r. r ! 2) table) = Inr ps"
    and rs: "df ds = map2 make_utterance table ps"
    by (auto simp: finish_table_def split: sum.splits)
  from file_paths_length [OF ps] have lps: "length ps = length data" by (simp add: table)
  have lt: "length table = length data" by (simp add: table)
  show "length (df ds) = length data" by (simp add: rs lps lt)
  have row: "table ! i = coerce_row castable ?T (pad_row (data ! i))"
    using i by (simp add: table)
  have u: "df ds ! i = make_utterance (table ! i) (ps ! i)"
    using i lps lt by (simp add: rs)
  have ct: "\<And>j. j < 7 \<Longrightarrow> cell_text (table ! i ! j) = field (data ! i) j"
    unfolding row using li by (simp add: cell_text_coerce_row)
  show "cell_text (df_start (df ds ! i)) = field (data ! i) 0"
    and "cell_text (df_end (df ds ! i)) = field (data ! i) 1"
    and "cell_text (df_activation (df ds ! i)) = field (data ! i) 4"
    and "cell_text (df_valence (df ds ! i)) = field (data ! i) 5"
    and "cell_text (df_dominance (df ds ! i)) = field (data ! i) 6"
    by (simp_all add: u make_utterance_def ct)
  from file_paths_nth [OF ps] i lt have "file_path (table ! i ! 2) = Inr (ps ! i)" by simp
  then obtain s where s: "table ! i ! 2 = Text s" and p: "audio_path s = Inr (ps ! i)"
    by (auto simp: file_path_Inr)
  from ct [of 2] s have "field (data ! i) 2 = Some s" by (simp add: cell_text_def)
  then have "data ! i ! 2 = s" by (simp add: field_def split: if_splits)
  with p show "audio_path (data ! i ! 2) = Inr (df_file (df ds ! i))"
    by (simp add: u make_utterance_def)
  have conv: "list_all (converts castable) (column ?T 3)
              \<longleftrightarrow> (\<forall>row\<in>set data. 3 < length row \<longrightarrow> castable (row ! 3))"
    by (rule column_converts [OF w7]) simp
  have "map_emotions (table ! i ! 3) =
          (if \<forall>row\<in>set data. 3 < length row \<longrightarrow> castable (row ! 3) then None
           else case field (data ! i) 3 of None \<Rightarrow> None | Some l \<Rightarrow> emotions l)"
    unfolding row using li
    by (auto simp: nth_coerce_row conv nth_pad_row map_emotions_def to_float32_def field_def)
  then show "df_emotion (df ds ! i) =
           (if \<forall>row\<in>set data. 3 < length row \<longrightarrow> castable (row ! 3) then None
            else case field (data ! i) 3 of None \<Rightarrow> None | Some l \<Rightarrow> emotions l)"
    by (simp add: u make_utterance_def)
qed

lemma read_files_lines:
  assumes "read_files fs dir files data = Inr data'"
  shows "data' = data @ map parse_line
           (concat (map (\<lambda>p. case readlines fs p of
                                Inl e \<Rightarrow> []
                              | Inr f \<Rightarrow> filter (\<lambda>line. startswith line ''['') f)
                      (map (\<lambda>name. os_path_join dir [name]) files)))"
proof -
  have "\<And>name. (case readlines fs (os_path_join dir [name]) of
                Inl e \<Rightarrow> []
              | Inr f \<Rightarrow> map parse_line (filter (\<lambda>line. startswith line ''['') f))
          = map parse_line (case readlines fs (os_path_join dir [name]) of
                Inl e \<Rightarrow> []
              | Inr f \<Rightarrow> filter (\<lambda>line. startswith line ''['') f)"
    by (simp split: sum.splits)
  then show ?thesis
    unfolding read_files_data [OF assms] by (simp add: map_concat comp_def)
qed

lemma read_sessions_lines:
  "read_sessions fs r sessions data = Inr data' \<Longrightarrow>
   data' = data @ map parse_line
     (concat (map (\<lambda>p. case readlines fs p of
                          Inl e \<Rightarrow> []
                        | Inr f \<Rightarrow> filter (\<lambda>line. startswith line ''['') f)
                (concat (map (evaluation_files fs r) sessions))))"
proof (induction sessions arbitrary: data)
  case Nil
  then show ?case by simp
next
  case (Cons i sessions)
  from Cons.prems obtain names where names: "listdir fs (session_path r i) = Inr names"
    by (cases "listdir fs (session_path r i)") auto
  let ?files = "filter (\<lambda>name. endswith name ''.txt'') names"
  from Cons.prems names obtain data1
    where d1: "read_files fs (session_path r i) ?files data = Inr data1"
      and rest: "read_sessions fs r sessions data1 = Inr data'"
    by (cases "read_files fs (session_path r i) ?files data") auto
  have e: "evaluation_files fs r i = map (\<lambda>name. os_path_join (session_path r i) [name]) ?files"
    by (simp add: evaluation_files_def names)
  show ?case
    unfolding Cons.IH [OF rest] read_files_lines [OF d1] by (simp add: e comp_def)
qed

lemma collect_data_lines:
  "collect_data fs r = Inr data \<Longrightarrow> data = map parse_line (selected_lines fs r)"
  unfolding collect_data_def selected_lines_def
  by (drule read_sessions_lines) simp

section \<open>Properties of the model with a store\<close>

lemma prefix_length:
  assumes "take (length h) h' = h"
  shows "length h \<le> length h'"
proof -
  have "length (take (length h) h') = length h" by (simp only: assms)
  then show ?thesis by simp
qed

lemma prefix_trans:
  assumes "take (length h) h1 = h" and "take (length h1) h2 = h1"
  shows "take (length h) h2 = h"
proof -
  have "take (length h) h2 = take (length h) (take (length h1) h2)"
    using prefix_length [OF assms(1)] by (simp add: min_def)
  with assms show ?thesis by simp
qed

lemma prefix_nth: "take (length h) h' = h \<Longrightarrow> a < length h \<Longrightarrow> h' ! a = h ! a"
  by (metis nth_take)

lemma fill_frames_st_changes:
  "fill_frames_st h pw fr js = (res, h') \<Longrightarrow>
   length h' = length h \<and> (\<forall>a. a \<noteq> fr \<longrightarrow> h' ! a = h ! a)"
proof (induction js arbitrary: h)
  case Nil
  then show ?case by simp
next
  case (Cons i js)
  show ?case
  proof (cases "get_tensor h pw")
    case (Inl e)
    with Cons.prems show ?thesis by simp
  next
    case padded: (Inr padded)
    show ?thesis
    proof (cases "get_frames h fr")
      case (Inl e)
      with Cons.prems padded show ?thesis by simp
    next
      case fs: (Inr fs)
      show ?thesis
      proof (cases "set_frame fs i (slice_cols padded (i * nat step_length)
                          (i * nat step_length + nat frame_length))")
        case (Inl e)
        with Cons.prems padded fs show ?thesis by simp
      next
        case (Inr fs')
        with Cons.prems padded fs
        have "fill_frames_st (h[fr := FramesObj fs']) pw fr js = (res, h')" by simp
        from Cons.IH [OF this] show ?thesis by simp
      qed
    qed
  qed
qed

lemma fill_frames_st_prefix:
  assumes "fill_frames_st h pw fr js = (res, h')" and "n \<le> fr"
  shows "take n h' = take n h"
proof (rule nth_equalityI)
  from fill_frames_st_changes [OF assms(1)]
  have len: "length h' = length h" and same: "\<And>a. a \<noteq> fr \<Longrightarrow> h' ! a = h ! a" by auto
  show "length (take n h') = length (take n h)" using len by simp
  fix a assume "a < length (take n h')"
  then have "a < n" by simp
  with assms(2) have "a \<noteq> fr" by simp
  with \<open>a < n\<close> same show "take n h' ! a = take n h ! a" by simp
qed

lemma frame_item_st_prefix:
  assumes "frame_item_st h w = (res, h')"
  shows "take (length h) h' = h"
proof (cases "get_tensor h w")
  case (Inl e)
  with assms show ?thesis by (simp add: frame_item_st_def)
next
  case t: (Inr t)
  let ?L = "int (shape1 t)"
  let ?n = "n_frames_of ?L"
  show ?thesis
  proof (cases "F_pad t (padding_length_of ?L ?n)")
    case (Inl e)
    with assms t show ?thesis by (simp add: frame_item_st_def Let_def)
  next
    case padded: (Inr padded)
    show ?thesis
    proof (cases "torch_zeros ?n :: error + 'a frame list")
      case (Inl e)
      with assms t padded show ?thesis by (auto simp: frame_item_st_def Let_def alloc_def)
    next
      case z: (Inr z)
      let ?h2 = "h @ [TensorObj padded] @ [FramesObj z]"
      obtain res3 h3 where f: "fill_frames_st ?h2 (length h) (Suc (length h)) [0..<nat ?n] = (res3, h3)"
        by (cases "fill_frames_st ?h2 (length h) (Suc (length h)) [0..<nat ?n]") auto
      with assms t padded z have "h' = h3"
        by (auto simp: frame_item_st_def Let_def alloc_def split: sum.splits)
      moreover from fill_frames_st_prefix [OF f, of "length h"] have "take (length h) h3 = h"
        by simp
      ultimately show ?thesis by simp
    qed
  qed
qed


lemma get_tensor_prefix:
  "take (length h) h' = h \<Longrightarrow> get_tensor h a = Inr t \<Longrightarrow> get_tensor h' a = Inr t"
  using prefix_length [of h h'] prefix_nth [of h h' a]
  by (auto simp: get_tensor_def present_def split: if_splits)

lemma get_frames_prefix:
  "take (length h) h' = h \<Longrightarrow> get_frames h a = Inr fs \<Longrightarrow> get_frames h' a = Inr fs"
  using prefix_length [of h h'] prefix_nth [of h h' a]
  by (auto simp: get_frames_def present_def split: if_splits)

lemma get_dict_prefix:
  "take (length h) h' = h \<Longrightarrow> get_dict h a = Inr d \<Longrightarrow> get_dict h' a = Inr d"
  using prefix_length [of h h'] prefix_nth [of h h' a]
  by (auto simp: get_dict_def present_def split: if_splits)

lemma get_frames_iff:
  "get_frames h a = Inr fs \<longleftrightarrow> a < length h \<and> h ! a = FramesObj fs"
  by (auto simp: get_frames_def present_def split: obj.splits)

lemma get_tensor_iff:
  "get_tensor h a = Inr t \<longleftrightarrow> a < length h \<and> h ! a = TensorObj t"
  by (auto simp: get_tensor_def present_def split: obj.splits)

lemma deref_item_prefix:
  assumes "take (length h) h' = h" and "deref_item h a = Some item"
  shows "deref_item h' a = Some item"
proof -
  from assms(2) obtain d t where d: "get_dict h a = Inr d"
    and t: "get_tensor h (waveform d) = Inr t"
    by (auto simp: deref_item_def split: sum.splits)
  from get_dict_prefix [OF assms(1) d] get_tensor_prefix [OF assms(1) t] assms(2) d t
  show ?thesis by (simp add: deref_item_def)
qed

lemma deref_batch_prefix:
  "take (length h) h' = h \<Longrightarrow> deref_batch h batch = Some items
   \<Longrightarrow> deref_batch h' batch = Some items"
proof (induction batch arbitrary: items)
  case Nil
  then show ?case by simp
next
  case (Cons a batch)
  from Cons.prems(2) obtain item rest where i: "deref_item h a = Some item"
    and r: "deref_batch h batch = Some rest" and items: "items = item # rest"
    by (auto split: option.splits)
  from deref_item_prefix [OF Cons.prems(1) i] Cons.IH [OF Cons.prems(1) r] items
  show ?case by simp
qed

lemma fill_frames_st_refines:
  assumes "get_tensor h pw = Inr padded" and "get_frames h fr = Inr z" and "pw \<noteq> fr"
    and "fill_frames_st h pw fr js = (res, h')"
  shows "case fill_frames padded js z of
           Inl e \<Rightarrow> res = Inl e
         | Inr fs \<Rightarrow> res = Inr () \<and> get_frames h' fr = Inr fs"
  using assms
proof (induction js arbitrary: h z)
  case Nil
  then show ?case by simp
next
  case (Cons i js)
  let ?src = "slice_cols padded (i * nat step_length) (i * nat step_length + nat frame_length)"
  show ?case
  proof (cases "set_frame z i ?src")
    case (Inl e)
    with Cons.prems show ?thesis by simp
  next
    case (Inr z')
    let ?h1 = "h[fr := FramesObj z']"
    from Cons.prems(2) have fr: "fr < length h" by (simp add: get_frames_iff)
    have t1: "get_tensor ?h1 pw = Inr padded"
      using Cons.prems(1,3) by (simp add: get_tensor_iff)
    have f1: "get_frames ?h1 fr = Inr z'"
      using fr by (simp add: get_frames_iff)
    from Cons.prems Inr have run: "fill_frames_st ?h1 pw fr js = (res, h')" by simp
    from Cons.IH [OF t1 f1 Cons.prems(3) run] Inr show ?thesis by simp
  qed
qed

lemma frame_item_st_refines:
  assumes "get_tensor h w = Inr t" and "frame_item_st h w = (res, h')"
  shows "case frame_item t of
           Inl e \<Rightarrow> res = Inl e
         | Inr fs \<Rightarrow> \<exists>a. res = Inr a \<and> length h \<le> a \<and> get_frames h' a = Inr fs"
proof -
  let ?L = "int (shape1 t)"
  let ?n = "n_frames_of ?L"
  show ?thesis
  proof (cases "F_pad t (padding_length_of ?L ?n)")
    case (Inl e)
    with assms show ?thesis by (simp add: frame_item_st_def frame_item_def Let_def)
  next
    case padded: (Inr padded)
    show ?thesis
    proof (cases "torch_zeros ?n :: error + 'a frame list")
      case (Inl e)
      with assms padded show ?thesis
        by (auto simp: frame_item_st_def frame_item_def Let_def alloc_def)
    next
      case z: (Inr z)
      let ?h2 = "h @ [TensorObj padded] @ [FramesObj z]"
      obtain res3 h3 where f: "fill_frames_st ?h2 (length h) (Suc (length h)) [0..<nat ?n] = (res3, h3)"
        by (cases "fill_frames_st ?h2 (length h) (Suc (length h)) [0..<nat ?n]") auto
      have t2: "get_tensor ?h2 (length h) = Inr padded"
        by (simp add: get_tensor_iff nth_append)
      have f2: "get_frames ?h2 (Suc (length h)) = Inr z"
        by (simp add: get_frames_iff nth_append)
      have ne: "length h \<noteq> Suc (length h)" by simp
      note r = fill_frames_st_refines [OF t2 f2 ne f]
      have pure: "frame_item t = fill_frames padded [0..<nat ?n] z"
        using padded z by (simp add: frame_item_def Let_def)
      have st: "(res, h') = (case res3 of Inl e \<Rightarrow> (Inl e, h3) | Inr u \<Rightarrow> (Inr (Suc (length h)), h3))"
        using assms padded z f
        by (simp add: frame_item_st_def Let_def alloc_def split: sum.splits)
      show ?thesis
      proof (cases "fill_frames padded [0..<nat ?n] z")
        case (Inl e)
        with r st pure show ?thesis by simp
      next
        case (Inr fs)
        with r st pure show ?thesis by auto
      qed
    qed
  qed
qed

lemma torch_cat_st_result:
  assumes "torch_cat_st h a b = (res, h')"
  shows "take (length h) h' = h"
    and "res = Inr c \<Longrightarrow> c = length h \<and> (\<exists>fa fb. get_frames h a = Inr fa \<and> get_frames h b = Inr fb
           \<and> get_frames h' c = Inr (fa @ fb))"
  using assms
  by (auto simp: torch_cat_st_def alloc_def get_frames_iff nth_append split: sum.splits)


lemma collate_loop_st_step:
  assumes "collate_loop_st h (item # batch) frames = (res, h')"
  obtains (dict) e where "get_dict h item = Inl e" and "res = Inl e" and "h' = h"
  | (frame) d e where "get_dict h item = Inr d"
      and "frame_item_st h (waveform d) = (Inl e, h')" and "res = Inl e"
  | (cat) d item_frames h1 e where "get_dict h item = Inr d"
      and "frame_item_st h (waveform d) = (Inr item_frames, h1)"
      and "torch_cat_st h1 frames item_frames = (Inl e, h')" and "res = Inl e"
  | (loop) d item_frames h1 frames' h2 where "get_dict h item = Inr d"
      and "frame_item_st h (waveform d) = (Inr item_frames, h1)"
      and "torch_cat_st h1 frames item_frames = (Inr frames', h2)"
      and "collate_loop_st h2 batch frames' = (res, h')"
proof (cases "get_dict h item")
  case (Inl e)
  from assms Inl have "res = Inl e" and "h' = h" by simp_all
  then show ?thesis by (rule dict [OF Inl])
next
  case d: (Inr d)
  obtain res1 h1 where f: "frame_item_st h (waveform d) = (res1, h1)"
    by (cases "frame_item_st h (waveform d)") auto
  show ?thesis
  proof (cases res1)
    case (Inl e)
    from assms d f Inl have "res = Inl e" and "h1 = h'" by simp_all
    with f Inl have "frame_item_st h (waveform d) = (Inl e, h')" by simp
    then show ?thesis using \<open>res = Inl e\<close> by (rule frame [OF d])
  next
    case r1: (Inr item_frames)
    from f r1 have f': "frame_item_st h (waveform d) = (Inr item_frames, h1)" by simp
    obtain res2 h2 where c: "torch_cat_st h1 frames item_frames = (res2, h2)"
      by (cases "torch_cat_st h1 frames item_frames") auto
    show ?thesis
    proof (cases res2)
      case (Inl e)
      from assms d f' c Inl have "res = Inl e" and "h2 = h'" by simp_all
      with c Inl have "torch_cat_st h1 frames item_frames = (Inl e, h')" by simp
      then show ?thesis using \<open>res = Inl e\<close> by (rule cat [OF d f'])
    next
      case (Inr frames')
      from c Inr have c': "torch_cat_st h1 frames item_frames = (Inr frames', h2)" by simp
      from assms d f' c' have "collate_loop_st h2 batch frames' = (res, h')" by simp
      then show ?thesis by (rule loop [OF d f' c'])
    qed
  qed
qed

lemma collate_loop_st_result:
  "collate_loop_st h batch frames = (res, h') \<Longrightarrow>
   take (length h) h' = h
   \<and> (\<forall>r. res = Inr r \<longrightarrow>
         (r = frames \<or> length h \<le> r)
         \<and> (\<forall>fs0. get_frames h frames = Inr fs0 \<longrightarrow> (\<exists>fs. get_frames h' r = Inr fs)))"
proof (induction batch arbitrary: h frames)
  case Nil
  then show ?case by auto
next
  case (Cons item batch)
  from Cons.prems show ?case
  proof (cases rule: collate_loop_st_step)
    case (dict e)
    then show ?thesis by simp
  next
    case (frame d e)
    with frame_item_st_prefix show ?thesis by blast
  next
    case (cat d item_frames h1 e)
    from frame_item_st_prefix [OF cat(2)] torch_cat_st_result(1) [OF cat(3)] cat(4)
    show ?thesis by (auto intro: prefix_trans)
  next
    case (loop d item_frames h1 frames' h2)
    note p1 = frame_item_st_prefix [OF loop(2)]
    note p2 = torch_cat_st_result(1) [OF loop(3)]
    from torch_cat_st_result(2) [OF loop(3) refl]
    have c: "frames' = length h1" and typed: "\<exists>fs. get_frames h2 frames' = Inr fs" by auto
    note ih = Cons.IH [OF loop(4)]
    have p: "take (length h) h' = h"
      using p1 p2 ih by (blast intro: prefix_trans)
    have l1: "length h \<le> length h1" using p1 by (rule prefix_length)
    have l2: "length h1 \<le> length h2" using p2 by (rule prefix_length)
    show ?thesis
    proof (intro conjI allI impI)
      show "take (length h) h' = h" by (rule p)
    next
      fix r assume "res = Inr r"
      with ih have "r = frames' \<or> length h2 \<le> r" by blast
      with c l1 l2 show "r = frames \<or> length h \<le> r" by auto
    next
      fix r fs0 assume "res = Inr r"
      with ih typed show "\<exists>fs. get_frames h' r = Inr fs" by blast
    qed
  qed
qed

lemma collate_loop_st_refines:
  "deref_batch h batch = Some items \<Longrightarrow> get_frames h frames = Inr fs0 \<Longrightarrow>
   collate_loop_st h batch frames = (res, h') \<Longrightarrow>
   (case collate_loop items fs0 of
      Inl e \<Rightarrow> res = Inl e
    | Inr fs \<Rightarrow> \<exists>r. res = Inr r \<and> get_frames h' r = Inr fs)"
proof (induction batch arbitrary: h frames fs0 items)
  case Nil
  then show ?case by auto
next
  case (Cons a batch)
  from Cons.prems(1) obtain item rest where i: "deref_item h a = Some item"
    and rest: "deref_batch h batch = Some rest" and items: "items = item # rest"
    by (auto split: option.splits)
  from i obtain d where d: "get_dict h a = Inr d"
    and t: "get_tensor h (waveform d) = Inr (waveform item)"
    by (auto simp: deref_item_def split: sum.splits)
  from Cons.prems(3) show ?case
  proof (cases rule: collate_loop_st_step)
    case (dict e)
    with d show ?thesis by simp
  next
    case (frame d' e)
    with d have run: "frame_item_st h (waveform d) = (Inl e, h')" by simp
    from frame_item_st_refines [OF t run] frame(3) show ?thesis
      unfolding items by (auto split: sum.splits)
  next
    case (cat d' item_frames h1 e)
    with d have run: "frame_item_st h (waveform d) = (Inr item_frames, h1)" by simp
    from frame_item_st_refines [OF t run]
    obtain ifs where "frame_item (waveform item) = Inr ifs"
      and g: "get_frames h1 item_frames = Inr ifs"
      by (auto split: sum.splits)
    from get_frames_prefix [OF frame_item_st_prefix [OF run] Cons.prems(2)] g cat(3)
    show ?thesis by (simp add: torch_cat_st_def alloc_def)
  next
    case (loop d' item_frames h1 frames' h2)
    with d have run: "frame_item_st h (waveform d) = (Inr item_frames, h1)" by simp
    from frame_item_st_refines [OF t run]
    obtain ifs where pure: "frame_item (waveform item) = Inr ifs"
      and g: "get_frames h1 item_frames = Inr ifs"
      by (auto split: sum.splits)
    note p1 = frame_item_st_prefix [OF run]
    note p2 = torch_cat_st_result(1) [OF loop(3)]
    have g0: "get_frames h1 frames = Inr fs0"
      by (rule get_frames_prefix [OF p1 Cons.prems(2)])
    from torch_cat_st_result(2) [OF loop(3) refl] g0 g
    have g2: "get_frames h2 frames' = Inr (fs0 @ ifs)" by auto
    have rest2: "deref_batch h2 batch = Some rest"
      by (rule deref_batch_prefix [OF prefix_trans [OF p1 p2] rest])
    from Cons.IH [OF rest2 g2 loop(4)] pure show ?thesis
      unfolding items by simp
  qed
qed

lemma collate_fn_st_refines:
  assumes "deref_batch h batch = Some items" and "collate_fn_st h batch = (res, h')"
  shows "case collate_fn items of
           Inl e \<Rightarrow> res = Inl e
         | Inr fs \<Rightarrow> \<exists>r. res = Inr r \<and> get_frames h' r = Inr fs"
proof -
  let ?h0 = "h @ [FramesObj []]"
  from assms(2) have run: "collate_loop_st ?h0 batch (length h) = (res, h')"
    by (simp add: collate_fn_st_def alloc_def)
  have p0: "take (length h) ?h0 = h" by simp
  have g0: "get_frames ?h0 (length h) = Inr []" by (simp add: get_frames_iff)
  from collate_loop_st_refines [OF deref_batch_prefix [OF p0 assms(1)] g0 run]
  show ?thesis by (simp add: collate_fn_def)
qed

lemma collate_fn_st_effect:
  assumes "collate_fn_st h batch = (res, h')"
  shows "take (length h) h' = h"
    and "res = Inr r \<Longrightarrow> \<not> present h r \<and> (\<exists>fs. get_frames h' r = Inr fs)"
proof -
  let ?h0 = "h @ [FramesObj []]"
  from assms have run: "collate_loop_st ?h0 batch (length h) = (res, h')"
    by (simp add: collate_fn_st_def alloc_def)
  note R = collate_loop_st_result [OF run]
  have p0: "take (length h) ?h0 = h" by simp
  from R have p1: "take (length ?h0) h' = ?h0" by blast
  show "take (length h) h' = h" by (rule prefix_trans [OF p0 p1])
  have g0: "get_frames ?h0 (length h) = Inr []" by (simp add: get_frames_iff)
  assume r: "res = Inr r"
  with R have "r = length h \<or> length ?h0 \<le> r" by blast
  then have "\<not> present h r" by (auto simp: present_def)
  moreover from r R g0 have "\<exists>fs. get_frames h' r = Inr fs" by blast
  ultimately show "\<not> present h r \<and> (\<exists>fs. get_frames h' r = Inr fs)" by simp
qed

section \<open>The claims about the framer\<close>

text \<open>
  The framer takes its frame and channel sizes as constants: it works on waveforms of one
  channel, so the theorems speak of a waveform \<open>Tensor2 L [c]\<close> whose only row \<open>c\<close> has
  \<open>L\<close> samples.
\<close>

text \<open>
  Claim C1. A waveform shorter than a frame should give one frame, the waveform followed by
  zeros, without an error. The code clamps the padding for such a waveform (line 98) but
  not the number of frames (line 97), which is \<open>-1\<close> up to 80 samples and \<open>0\<close> from 81 to
  240 samples (lemmas \<open>frame_item_too_short\<close>, \<open>frame_item_no_frame\<close>); only from 241
  samples on is there one frame (lemma \<open>frame_item_one_frame\<close>). For the waveform of no
  sample \<^verbatim>\<open>torch.zeros(-1, 1, 400)\<close> raises.
\<close>

theorem collate_fn_empty_waveform_raises:
  "collate_fn [\<lparr>path = ''a.wav'', waveform = Tensor2 0 [[]], sample_rate = 16000,
                emotion = Some 8, activation = Number ''2.5'', valence = Number ''2.5'',
                dominance = Number ''2.5''\<rparr> :: real tensor2 sample]
   = Inl RuntimeError"
  by (simp add: collate_fn_Cons frame_item_too_short)

text \<open>
  Claim C5. For a waveform of \<open>L \<ge> 400\<close> samples the number of frames is
  \<open>\<lceil>(L - 400) / 160\<rceil> + 1\<close>, the waveform is padded on the right with exactly
  \<open>frame_length + (n_frames - 1) * step_length - L\<close> zeros, which is not negative and
  makes the last frame end where the padded waveform ends, and frame \<open>i\<close> is the slice of
  the padded waveform that starts at \<open>i * 160\<close> and has 400 samples.
\<close>

theorem collate_fn_long_waveform:
  fixes item :: "('a::zero) tensor2 sample"
  assumes "waveform item = Tensor2 L [c]" and "length c = L" and "frame_length \<le> int L"
  shows "let n_frames = n_frames_of (int L);
             padding_length = padding_length_of (int L) n_frames;
             padded_waveform = c @ replicate (nat padding_length) 0
         in n_frames = \<lceil>(real L - 400) / 160\<rceil> + 1
          \<and> 0 \<le> padding_length
          \<and> padding_length = frame_length + (n_frames - 1) * step_length - int L
          \<and> F_pad (waveform item) padding_length
              = Inr (Tensor2 (L + nat padding_length) [padded_waveform])
          \<and> length padded_waveform = 400 + (nat n_frames - 1) * 160
          \<and> collate_fn [item]
              = Inr (map (\<lambda>i. [take 400 (drop (i * 160) padded_waveform)]) [0..<nat n_frames])"
proof -
  from assms(3) have L: "400 \<le> L" by (simp add: frame_length_eq)
  let ?n = "(L - 400 + 159) div 160 + 1"
  let ?p = "400 + (?n - 1) * 160 - L"
  note a = long_arith [OF L]
  have n: "n_frames_of (int L) = \<lceil>(real L - 400) / 160\<rceil> + 1"
    unfolding n_frames_of_def frame_length_eq step_length_eq
    by (simp only: np_int_of_int) simp
  have p: "padding_length_of (int L) (n_frames_of (int L))
           = frame_length + (n_frames_of (int L) - 1) * step_length - int L"
    using L by (simp add: padding_length_of_def frame_length_eq)
  have pad: "F_pad (waveform item) (int ?p) = Inr (Tensor2 (L + ?p) [c @ replicate ?p 0])"
    unfolding assms(1) by (rule F_pad_mono [OF assms(2)])
  have len: "length (c @ replicate ?p 0) = 400 + (?n - 1) * 160"
    using a(4) assms(2) by simp
  have "frame_item (Tensor2 L [c]) =
        Inr (map (\<lambda>i. [take 400 (drop (i * 160) (c @ replicate ?p 0))]) [0..<?n])"
    by (rule frame_item_mono [OF assms(2) a(1) a(2)]) (rule disjI2, rule a(3))
  then have fr: "collate_fn [item] =
        Inr (map (\<lambda>i. [take 400 (drop (i * 160) (c @ replicate ?p 0))]) [0..<?n])"
    by (simp only: collate_fn_Cons collate_fn_Nil assms(1) sum.case append_Nil2)
  have n': "int ?n = \<lceil>(real L - 400) / 160\<rceil> + 1"
    using n by (simp only: a(1))
  have p': "int ?p = frame_length + (int ?n - 1) * step_length - int L"
    using p by (simp only: a(1) a(2))
  have nonneg: "0 \<le> int ?p" by simp
  show ?thesis
    unfolding Let_def
    by (simp only: a(1) a(2) nat_int) (intro conjI n' nonneg p' pad len fr)
qed

theorem collate_fn_long_waveform_witness:
  "frame_length \<le> int 561 \<and>
   collate_fn [\<lparr>path = ''a.wav'', waveform = Tensor2 561 [replicate 561 (1::real)],
                sample_rate = 16000, emotion = Some 8, activation = Number ''2.5'',
                valence = Number ''2.5'', dominance = Number ''2.5''\<rparr>]
   = Inr [[replicate 400 1], [replicate 400 1], [replicate 241 1 @ replicate 159 0]]"
proof -
  let ?item = "\<lparr>path = ''a.wav'', waveform = Tensor2 561 [replicate 561 (1::real)],
                sample_rate = 16000, emotion = Some 8, activation = Number ''2.5'',
                valence = Number ''2.5'', dominance = Number ''2.5''\<rparr>"
  have h1: "waveform ?item = Tensor2 561 [replicate 561 1]" by simp
  have h2: "length (replicate 561 (1::real)) = 561" by simp
  have h3: "frame_length \<le> int 561" by (simp add: frame_length_eq)
  have n: "n_frames_of (int 561) = 3" by (simp add: n_frames_of_div)
  have p: "padding_length_of (int 561) 3 = 159"
    by (simp add: padding_length_of_def frame_length_eq step_length_eq)
  have u: "[0..<3] = [0, 1, 2]" by (simp add: upt_rec)
  from collate_fn_long_waveform [OF h1 h2 h3] h3 show ?thesis
    unfolding Let_def n p by (simp add: u)
qed

text \<open>
  Claim C6. A batch of two waveforms of 400 and of 560 samples gives one frame for the first
  and two for the second; the result is the list of these three frames in the order of the
  batch, with nothing between the frames of the two samples.
\<close>

theorem collate_fn_batch_400_560:
  fixes a b :: "('a::zero) tensor2 sample"
  assumes "waveform a = Tensor2 400 [c1]" and "length c1 = 400"
    and "waveform b = Tensor2 560 [c2]" and "length c2 = 560"
  shows "frame_item (waveform a) = Inr [[c1]]
       \<and> frame_item (waveform b) = Inr [[take 400 c2], [drop 160 c2]]
       \<and> collate_fn [a, b] = Inr [[c1], [take 400 c2], [drop 160 c2]]"
proof -
  have na: "n_frames_of 400 = 1" and nb: "n_frames_of 560 = 2"
    by (simp_all add: n_frames_of_div)
  have pa: "padding_length_of 400 1 = 0" and pb: "padding_length_of 560 2 = 0"
    by (simp_all add: padding_length_of_def frame_length_eq step_length_eq)
  have u: "[0..<2] = [0, 1]" by (simp add: upt_rec)
  have fa: "frame_item (waveform a) = Inr [[c1]]"
    using frame_item_long [OF assms(2)] assms(2) by (simp add: assms(1) na pa)
  have fb: "frame_item (waveform b) = Inr [[take 400 c2], [drop 160 c2]]"
    using frame_item_long [OF assms(4)] assms(4) by (simp add: assms(3) nb pb u)
  show ?thesis
    by (simp add: fa fb collate_fn_Cons collate_fn_Nil)
qed

theorem collate_fn_batch_400_560_witness:
  "length (replicate 400 (1::real)) = 400 \<and> length (replicate 560 (2::real)) = 560 \<and>
   collate_fn [\<lparr>path = ''a.wav'', waveform = Tensor2 400 [replicate 400 (1::real)],
                sample_rate = 16000, emotion = Some 8, activation = Number ''2.5'',
                valence = Number ''2.5'', dominance = Number ''2.5''\<rparr>,
               \<lparr>path = ''b.wav'', waveform = Tensor2 560 [replicate 560 2],
                sample_rate = 16000, emotion = Some 1, activation = Number ''3.5'',
                valence = Number ''1.5'', dominance = Number ''4.0''\<rparr>]
   = Inr [[replicate 400 1], [replicate 400 2], [replicate 400 2]]"
proof -
  let ?a = "\<lparr>path = ''a.wav'', waveform = Tensor2 400 [replicate 400 (1::real)],
                sample_rate = 16000, emotion = Some 8, activation = Number ''2.5'',
                valence = Number ''2.5'', dominance = Number ''2.5''\<rparr>"
  let ?b = "\<lparr>path = ''b.wav'', waveform = Tensor2 560 [replicate 560 (2::real)],
                sample_rate = 16000, emotion = Some 1, activation = Number ''3.5'',
                valence = Number ''1.5'', dominance = Number ''4.0''\<rparr>"
  have h1: "waveform ?a = Tensor2 400 [replicate 400 1]" by simp
  have h2: "length (replicate 400 (1::real)) = 400" by simp
  have h3: "waveform ?b = Tensor2 560 [replicate 560 2]" by simp
  have h4: "length (replicate 560 (2::real)) = 560" by simp
  from collate_fn_batch_400_560 [OF h1 h2 h3 h4] show ?thesis by simp
qed

section \<open>The claims about the index and the accessor\<close>

text \<open>
  Claim C2. The path of the audio file of an utterance is computed from its \<open>file_id\<close>:
  \<^verbatim>\<open>Session<N>/sentences/wav/<utterance_group>/<file_id>.wav\<close>, where the group is the
  \<open>file_id\<close> without its last five characters. As stated, with the path
  \<^verbatim>\<open>Session1/sentences/wav/Ses01F_impro01_F/Ses01F_impro01_F000.wav\<close> for
  \<^verbatim>\<open>Ses01F_impro01_F000\<close>, the claim fails: the last five characters are \<^verbatim>\<open>_F000\<close>,
  so the group is \<^verbatim>\<open>Ses01F_impro01\<close>.
\<close>

theorem audio_path_claimed_example_counterexample:
  "audio_path ''Ses01F_impro01_F000''
   \<noteq> Inr ''Session1/sentences/wav/Ses01F_impro01_F/Ses01F_impro01_F000.wav''"
  by code_simp

text \<open>
  Claim C2, amended. For a \<open>file_id\<close> of more than five characters without a slash, the
  path is \<^verbatim>\<open>Session<N>/sentences/wav/<utterance_group>/<file_id>.wav\<close>, where \<open>N\<close> is the
  character of \<open>file_id\<close> at index 4, counting from 0, and the group is \<open>file_id\<close> without
  its last five characters; for \<^verbatim>\<open>Ses01F_impro01_F000\<close> the path is
  \<^verbatim>\<open>Session1/sentences/wav/Ses01F_impro01/Ses01F_impro01_F000.wav\<close>. The \<^verbatim>\<open>file\<close> column of
  the finished table holds these paths, one for the \<open>file_id\<close> of each row.
\<close>

theorem audio_path_derivation:
  "(5 < length file \<and> CHR ''/'' \<notin> set file \<longrightarrow>
      audio_path file =
        Inr (''Session'' @ [file ! 4] @ ''/sentences/wav/'' @ take (length file - 5) file
             @ ''/'' @ file @ ''.wav''))
   \<and> audio_path ''Ses01F_impro01_F000''
       = Inr ''Session1/sentences/wav/Ses01F_impro01/Ses01F_impro01_F000.wav''
   \<and> (finish_table table = Inr rs \<longrightarrow>
        map (\<lambda>row. file_path (row ! 2)) table = map (\<lambda>u. Inr (df_file u)) rs)"
proof (intro conjI)
  show "5 < length file \<and> CHR ''/'' \<notin> set file \<longrightarrow>
      audio_path file =
        Inr (''Session'' @ [file ! 4] @ ''/sentences/wav/'' @ take (length file - 5) file
             @ ''/'' @ file @ ''.wav'')"
    using audio_path_plain by blast
  show "audio_path ''Ses01F_impro01_F000''
       = Inr ''Session1/sentences/wav/Ses01F_impro01/Ses01F_impro01_F000.wav''"
    by code_simp
  show "finish_table table = Inr rs \<longrightarrow>
        map (\<lambda>row. file_path (row ! 2)) table = map (\<lambda>u. Inr (df_file u)) rs"
    using finish_table_files by blast
qed

theorem audio_path_derivation_witness:
  "5 < length ''Ses05M_script03_2_M041'' \<and> CHR ''/'' \<notin> set ''Ses05M_script03_2_M041''
   \<and> audio_path ''Ses05M_script03_2_M041''
       = Inr ''Session5/sentences/wav/Ses05M_script03_2/Ses05M_script03_2_M041.wav''
   \<and> finish_table [[Number ''1.0'', Number ''2.0'', Text ''Ses05M_script03_2_M041'',
                      Text ''sad'', Number ''2.0'', Number ''3.0'', Number ''2.5'']]
       = Inr [\<lparr>df_start = Number ''1.0'', df_end = Number ''2.0'',
                df_file = ''Session5/sentences/wav/Ses05M_script03_2/Ses05M_script03_2_M041.wav'',
                df_emotion = Some 4, df_activation = Number ''2.0'',
                df_valence = Number ''3.0'', df_dominance = Number ''2.5''\<rparr>]
   \<and> file_path (Text ''Ses05M_script03_2_M041'')
       = Inr ''Session5/sentences/wav/Ses05M_script03_2/Ses05M_script03_2_M041.wav''"
proof -
  let ?table = "[[Number ''1.0'', Number ''2.0'', Text ''Ses05M_script03_2_M041'',
                      Text ''sad'', Number ''2.0'', Number ''3.0'', Number ''2.5'']]"
  let ?rs = "[\<lparr>df_start = Number ''1.0'', df_end = Number ''2.0'',
                df_file = ''Session5/sentences/wav/Ses05M_script03_2/Ses05M_script03_2_M041.wav'',
                df_emotion = Some 4, df_activation = Number ''2.0'',
                df_valence = Number ''3.0'', df_dominance = Number ''2.5''\<rparr>]"
  have h: "finish_table ?table = Inr ?rs" by code_simp
  from audio_path_derivation [of "''Ses05M_script03_2_M041''" ?table ?rs] h
  show ?thesis by simp
qed

text \<open>
  Claim C3. The label \<^verbatim>\<open>ang\<close> becomes the code 1 and \<^verbatim>\<open>xxx\<close> the code 9, and a label
  outside the dictionary should make the construction of the index fail. As stated the claim
  fails: the constructor maps the column with \<^verbatim>\<open>Series.map\<close>, which gives the missing value
  for a label that is not a key, and the construction goes on. Here the label is
  \<^verbatim>\<open>foo\<close>.
\<close>

theorem init_unknown_label_counterexample:
  "init decimal_text (corpus_with [line_header, line_unknown_label]) ''corpus''
   = Inr \<lparr>root = ''corpus'',
          df = [\<lparr>df_start = Number ''6.2901'', df_end = Number ''8.2357'',
                 df_file = ''Session1/sentences/wav/Ses01F_impro01/Ses01F_impro01_F000.wav'',
                 df_emotion = None, df_activation = Number ''2.5000'',
                 df_valence = Number ''2.5000'', df_dominance = Number ''2.5000''\<rparr>]\<rparr>"
  by code_simp

text \<open>
  Claim C3, amended. The label \<^verbatim>\<open>ang\<close> becomes the code 1 and \<^verbatim>\<open>xxx\<close> the code 9; a label
  outside the nine keys of the dictionary becomes the missing value, and never an error.
  The last step of the constructor fails exactly when the computation of the paths fails,
  and the emotion column it makes is the image of the column of labels. For the whole
  constructor: once the files are read, whether the construction succeeds is decided by
  the numbers of fields and the \<open>file_id\<close>s of the selected lines, in which no label
  occurs; and in the index the emotion of a record is what the dictionary gives for the
  label of its line, which is the missing value for a label that is not a key (and for
  every record when all the labels of the corpus are texts of numbers, the column being
  then a column of numbers).
\<close>

theorem map_emotions_codes:
  "map_emotions (Text ''ang'') = Some 1 \<and> map_emotions (Text ''xxx'') = Some 9
   \<and> (s \<notin> set [''ang'', ''hap'', ''exc'', ''sad'', ''fru'', ''fea'', ''sur'', ''neu'', ''xxx'']
        \<longrightarrow> map_emotions (Text s) = None)
   \<and> (finish_table table = Inl e \<longleftrightarrow> file_paths (map (\<lambda>row. row ! 2) table) = Inl e)
   \<and> (finish_table table = Inr rs
        \<longrightarrow> map df_emotion rs = map (\<lambda>row. map_emotions (row ! 3)) table)
   \<and> (collect_data fs r = Inr data \<longrightarrow>
        ((\<exists>ds. init castable fs r = Inr ds) \<longleftrightarrow>
           data = [] \<or>
           ((\<forall>row\<in>set data. length row \<le> 7) \<and> (\<exists>row\<in>set data. length row = 7)
            \<and> (\<forall>row\<in>set data. 3 \<le> length row \<and> 5 \<le> length (row ! 2))
            \<and> (\<exists>row\<in>set data. \<not> castable (row ! 2)))))
   \<and> (collect_data fs r = Inr data \<and> init castable fs r = Inr ds \<and> i < length data \<longrightarrow>
        df_emotion (df ds ! i) =
          (if \<forall>row\<in>set data. 3 < length row \<longrightarrow> castable (row ! 3) then None
           else case field (data ! i) 3 of None \<Rightarrow> None | Some l \<Rightarrow> emotions l))"
proof (intro conjI impI)
  show "map_emotions (Text ''ang'') = Some 1" and "map_emotions (Text ''xxx'') = Some 9"
    by (simp_all add: map_emotions_def emotions_def)
next
  assume "s \<notin> set [''ang'', ''hap'', ''exc'', ''sad'', ''fru'', ''fea'', ''sur'', ''neu'', ''xxx'']"
  then show "map_emotions (Text s) = None"
    by (simp add: map_emotions_def emotions_def)
next
  show "finish_table table = Inl e \<longleftrightarrow> file_paths (map (\<lambda>row. row ! 2) table) = Inl e"
    by (rule finish_table_Inl)
next
  assume "finish_table table = Inr rs"
  then show "map df_emotion rs = map (\<lambda>row. map_emotions (row ! 3)) table"
    by (rule finish_table_emotions)
next
  assume "collect_data fs r = Inr data"
  then show "(\<exists>ds. init castable fs r = Inr ds) \<longleftrightarrow>
           data = [] \<or>
           ((\<forall>row\<in>set data. length row \<le> 7) \<and> (\<exists>row\<in>set data. length row = 7)
            \<and> (\<forall>row\<in>set data. 3 \<le> length row \<and> 5 \<le> length (row ! 2))
            \<and> (\<exists>row\<in>set data. \<not> castable (row ! 2)))"
    by (rule init_succeeds_iff)
next
  assume "collect_data fs r = Inr data \<and> init castable fs r = Inr ds \<and> i < length data"
  then show "df_emotion (df ds ! i) =
          (if \<forall>row\<in>set data. 3 < length row \<longrightarrow> castable (row ! 3) then None
           else case field (data ! i) 3 of None \<Rightarrow> None | Some l \<Rightarrow> emotions l)"
    using init_rows(8) by blast
qed

theorem map_emotions_codes_witness:
  "''foo'' \<notin> set [''ang'', ''hap'', ''exc'', ''sad'', ''fru'', ''fea'', ''sur'', ''neu'', ''xxx'']
   \<and> map_emotions (Text ''foo'') = None
   \<and> collect_data (corpus_with [line_header, line_neutral, line_unknown_label]) ''corpus''
       = Inr [[''10.0100'', ''11.3925'', ''Ses01F_impro01_F001'', ''neu'',
               ''2.5000'', ''2.5000'', ''2.5000''],
              [''6.2901'', ''8.2357'', ''Ses01F_impro01_F000'', ''foo'',
               ''2.5000'', ''2.5000'', ''2.5000'']]
   \<and> (\<exists>ds. init decimal_text (corpus_with [line_header, line_neutral, line_unknown_label])
               ''corpus'' = Inr ds
             \<and> df_emotion (df ds ! 0) = Some 8 \<and> df_emotion (df ds ! 1) = None)
   \<and> finish_table [[Number ''6.2901'', Number ''8.2357'', Text ''Ses01F_impro01_F000'',
                      Text ''foo'', Number ''2.5000'', Number ''2.5000'', Number ''2.5000'']]
       = Inr [\<lparr>df_start = Number ''6.2901'', df_end = Number ''8.2357'',
                df_file = ''Session1/sentences/wav/Ses01F_impro01/Ses01F_impro01_F000.wav'',
                df_emotion = None, df_activation = Number ''2.5000'',
                df_valence = Number ''2.5000'', df_dominance = Number ''2.5000''\<rparr>]
   \<and> map df_emotion
         [\<lparr>df_start = Number ''6.2901'', df_end = Number ''8.2357'',
           df_file = ''Session1/sentences/wav/Ses01F_impro01/Ses01F_impro01_F000.wav'',
           df_emotion = None, df_activation = Number ''2.5000'',
           df_valence = Number ''2.5000'', df_dominance = Number ''2.5000''\<rparr>]
       = map (\<lambda>row. map_emotions (row ! 3))
           [[Number ''6.2901'', Number ''8.2357'', Text ''Ses01F_impro01_F000'',
             Text ''foo'', Number ''2.5000'', Number ''2.5000'', Number ''2.5000'']]"
proof -
  let ?fs = "corpus_with [line_header, line_neutral, line_unknown_label]"
  let ?data = "[[''10.0100'', ''11.3925'', ''Ses01F_impro01_F001'', ''neu'',
               ''2.5000'', ''2.5000'', ''2.5000''],
              [''6.2901'', ''8.2357'', ''Ses01F_impro01_F000'', ''foo'',
               ''2.5000'', ''2.5000'', ''2.5000'']]"
  let ?table = "[[Number ''6.2901'', Number ''8.2357'', Text ''Ses01F_impro01_F000'',
                      Text ''foo'', Number ''2.5000'', Number ''2.5000'', Number ''2.5000'']]"
  let ?rs = "[\<lparr>df_start = Number ''6.2901'', df_end = Number ''8.2357'',
                df_file = ''Session1/sentences/wav/Ses01F_impro01/Ses01F_impro01_F000.wav'',
                df_emotion = None, df_activation = Number ''2.5000'',
                df_valence = Number ''2.5000'', df_dominance = Number ''2.5000''\<rparr>]"
  have h1: "''foo'' \<notin> set [''ang'', ''hap'', ''exc'', ''sad'', ''fru'', ''fea'', ''sur'', ''neu'', ''xxx'']"
    by simp
  have h2: "finish_table ?table = Inr ?rs" by code_simp
  have h3: "collect_data ?fs ''corpus'' = Inr ?data" by code_simp
  have nd: "\<not> decimal_text ''Ses01F_impro01_F001''" by code_simp
  have nl: "\<not> decimal_text ''neu''" by code_simp
  have el: "emotions ''neu'' = Some 8" and eu: "emotions ''foo'' = None"
    by (simp_all add: emotions_def)
  note T = map_emotions_codes [of "''foo''" ?table _ ?rs ?fs "''corpus''" ?data decimal_text]
  from T h1 have a: "map_emotions (Text ''foo'') = None" by blast
  from T h2 have b: "map df_emotion ?rs = map (\<lambda>row. map_emotions (row ! 3)) ?table" by blast
  have "\<exists>ds. init decimal_text ?fs ''corpus'' = Inr ds"
  proof -
    have "(\<forall>row\<in>set ?data. length row \<le> 7) \<and> (\<exists>row\<in>set ?data. length row = 7)
            \<and> (\<forall>row\<in>set ?data. 3 \<le> length row \<and> 5 \<le> length (row ! 2))
            \<and> (\<exists>row\<in>set ?data. \<not> decimal_text (row ! 2))"
      using nd by simp
    with T h3 show ?thesis by blast
  qed
  then obtain ds where ds: "init decimal_text ?fs ''corpus'' = Inr ds" ..
  have c: "\<not> (\<forall>row\<in>set ?data. 3 < length row \<longrightarrow> decimal_text (row ! 3))"
    using nl by simp
  have "df_emotion (df ds ! 0) =
          (if \<forall>row\<in>set ?data. 3 < length row \<longrightarrow> decimal_text (row ! 3) then None
           else case field (?data ! 0) 3 of None \<Rightarrow> None | Some l \<Rightarrow> emotions l)"
    using map_emotions_codes
      [of "''foo''" ?table _ ?rs ?fs "''corpus''" ?data decimal_text ds 0] h3 ds
    by simp
  then have e0: "df_emotion (df ds ! 0) = Some 8"
    by (simp only: c if_False) (simp add: field_def el)
  have "df_emotion (df ds ! 1) =
          (if \<forall>row\<in>set ?data. 3 < length row \<longrightarrow> decimal_text (row ! 3) then None
           else case field (?data ! 1) 3 of None \<Rightarrow> None | Some l \<Rightarrow> emotions l)"
    using map_emotions_codes
      [of "''foo''" ?table _ ?rs ?fs "''corpus''" ?data decimal_text ds 1] h3 ds
    by simp
  then have e1: "df_emotion (df ds ! 1) = None"
    by (simp only: c if_False) (simp add: field_def eu)
  from h1 a h3 ds e0 e1 h2 b show ?thesis by blast
qed

text \<open>
  Claim C4. Every selected line should give exactly seven fields, and a line with another
  number of fields should abort the construction rather than be dropped or filled. As
  stated the claim fails: the constructor does not count the fields, and the table pads a
  short row when a longer one has seven fields. Here the last line has four fields.
\<close>

theorem init_short_line_counterexample:
  "init decimal_text (corpus_with [line_header, line_neutral, line_short]) ''corpus''
   = Inr \<lparr>root = ''corpus'',
          df = [\<lparr>df_start = Number ''10.0100'', df_end = Number ''11.3925'',
                 df_file = ''Session1/sentences/wav/Ses01F_impro01/Ses01F_impro01_F001.wav'',
                 df_emotion = Some 8, df_activation = Number ''2.5000'',
                 df_valence = Number ''2.5000'', df_dominance = Number ''2.5000''\<rparr>,
                \<lparr>df_start = Number ''14.8872'', df_end = Number ''18.0175'',
                 df_file = ''Session1/sentences/wav/Ses01F_impro01/Ses01F_impro01_F002.wav'',
                 df_emotion = Some 8, df_activation = Missing,
                 df_valence = Missing, df_dominance = Missing\<rparr>]\<rparr>"
  by code_simp

text \<open>
  Claim C4, amended. The constructor never drops a selected line, and it does not ask seven
  fields of each line. Once the files are read, with the rows of fields of the selected
  lines in their order: the construction fails with \<^verbatim>\<open>ValueError\<close> when some line has more
  than seven fields, and when there are lines and each has fewer than seven. It succeeds
  exactly when there is no selected line, or when the longest line has seven fields, every
  line has at least three fields and a \<open>file_id\<close> of at least five characters, and not
  every \<open>file_id\<close> is the text of a number; so a line of fewer than three fields, which
  has no \<open>file_id\<close>, makes it fail, and a line of three to six fields does not. After a
  success there is one record for each selected line, in order, with the path of its
  \<open>file_id\<close> and the texts of its fields, the fields that a short line lacks being
  missing values.
\<close>

theorem init_field_counts:
  assumes "collect_data fs r = Inr data"
  shows "data = map parse_line (selected_lines fs r)
    \<and> ((\<exists>row\<in>set data. 7 < length row) \<longrightarrow> init castable fs r = Inl ValueError)
    \<and> (data \<noteq> [] \<and> (\<forall>row\<in>set data. length row < 7) \<longrightarrow> init castable fs r = Inl ValueError)
    \<and> ((\<exists>ds. init castable fs r = Inr ds) \<longleftrightarrow>
          data = [] \<or>
          ((\<forall>row\<in>set data. length row \<le> 7) \<and> (\<exists>row\<in>set data. length row = 7)
           \<and> (\<forall>row\<in>set data. 3 \<le> length row \<and> 5 \<le> length (row ! 2))
           \<and> (\<exists>row\<in>set data. \<not> castable (row ! 2))))
    \<and> (init castable fs r = Inr ds \<longrightarrow>
          length (df ds) = length data
          \<and> (\<forall>i<length data.
                audio_path (data ! i ! 2) = Inr (df_file (df ds ! i))
                \<and> cell_text (df_start (df ds ! i)) = field (data ! i) 0
                \<and> cell_text (df_end (df ds ! i)) = field (data ! i) 1
                \<and> cell_text (df_activation (df ds ! i)) = field (data ! i) 4
                \<and> cell_text (df_valence (df ds ! i)) = field (data ! i) 5
                \<and> cell_text (df_dominance (df ds ! i)) = field (data ! i) 6))"
proof (intro conjI impI allI)
  show "data = map parse_line (selected_lines fs r)"
    by (rule collect_data_lines [OF assms])
next
  assume "\<exists>row\<in>set data. 7 < length row"
  then show "init castable fs r = Inl ValueError"
    by (intro init_ValueError [OF assms]) auto
next
  assume "data \<noteq> [] \<and> (\<forall>row\<in>set data. length row < 7)"
  then show "init castable fs r = Inl ValueError"
    by (intro init_ValueError [OF assms]) auto
next
  show "(\<exists>ds. init castable fs r = Inr ds) \<longleftrightarrow>
          data = [] \<or>
          ((\<forall>row\<in>set data. length row \<le> 7) \<and> (\<exists>row\<in>set data. length row = 7)
           \<and> (\<forall>row\<in>set data. 3 \<le> length row \<and> 5 \<le> length (row ! 2))
           \<and> (\<exists>row\<in>set data. \<not> castable (row ! 2)))"
    by (rule init_succeeds_iff [OF assms])
next
  assume ok: "init castable fs r = Inr ds"
  show "length (df ds) = length data"
  proof (cases "data = []")
    case True
    with ok assms show ?thesis
      by (auto simp: init_def DataFrame_def finish_table_def)
  next
    case False
    then have "0 < length data" by simp
    from init_rows(1) [OF assms ok this] show ?thesis .
  qed
next
  fix i assume ok: "init castable fs r = Inr ds" and i: "i < length data"
  note R = init_rows [OF assms ok i]
  show "audio_path (data ! i ! 2) = Inr (df_file (df ds ! i))" by (rule R(2))
  show "cell_text (df_start (df ds ! i)) = field (data ! i) 0" by (rule R(3))
  show "cell_text (df_end (df ds ! i)) = field (data ! i) 1" by (rule R(4))
  show "cell_text (df_activation (df ds ! i)) = field (data ! i) 4" by (rule R(5))
  show "cell_text (df_valence (df ds ! i)) = field (data ! i) 5" by (rule R(6))
  show "cell_text (df_dominance (df ds ! i)) = field (data ! i) 6" by (rule R(7))
qed

theorem init_field_counts_witness:
  "collect_data (corpus_with [''[a'' @ [TAB] @ ''b, c, d, e, f - g - h'']) ''corpus''
     = Inr [[''a'', ''b'', ''c'', ''d'', ''e'', ''f'', ''g'', ''h'']]
   \<and> init decimal_text (corpus_with [''[a'' @ [TAB] @ ''b, c, d, e, f - g - h'']) ''corpus''
     = Inl ValueError
   \<and> collect_data (corpus_with [line_short]) ''corpus''
     = Inr [[''14.8872'', ''18.0175'', ''Ses01F_impro01_F002'', ''neu'']]
   \<and> init decimal_text (corpus_with [line_short]) ''corpus'' = Inl ValueError
   \<and> collect_data (corpus_with [line_neutral, ''[1.0 - 2.0]'' @ [NL]]) ''corpus''
     = Inr [[''10.0100'', ''11.3925'', ''Ses01F_impro01_F001'', ''neu'',
             ''2.5000'', ''2.5000'', ''2.5000''],
            [''1.0'', ''2.0'']]
   \<and> \<not> (\<exists>ds. init decimal_text (corpus_with [line_neutral, ''[1.0 - 2.0]'' @ [NL]]) ''corpus''
                = Inr ds)
   \<and> collect_data (corpus_with [line_header, line_neutral, line_short]) ''corpus''
     = Inr [[''10.0100'', ''11.3925'', ''Ses01F_impro01_F001'', ''neu'',
             ''2.5000'', ''2.5000'', ''2.5000''],
            [''14.8872'', ''18.0175'', ''Ses01F_impro01_F002'', ''neu'']]
   \<and> (\<exists>ds. init decimal_text (corpus_with [line_header, line_neutral, line_short]) ''corpus''
               = Inr ds
             \<and> length (df ds) = 2
             \<and> cell_text (df_start (df ds ! 1)) = Some ''14.8872''
             \<and> cell_text (df_activation (df ds ! 1)) = None)"
proof -
  let ?fs8 = "corpus_with [''[a'' @ [TAB] @ ''b, c, d, e, f - g - h'']"
  let ?d8 = "[[''a'', ''b'', ''c'', ''d'', ''e'', ''f'', ''g'', ''h'']]"
  let ?fs4 = "corpus_with [line_short]"
  let ?d4 = "[[''14.8872'', ''18.0175'', ''Ses01F_impro01_F002'', ''neu'']]"
  let ?fs2 = "corpus_with [line_neutral, ''[1.0 - 2.0]'' @ [NL]]"
  let ?d2 = "[[''10.0100'', ''11.3925'', ''Ses01F_impro01_F001'', ''neu'',
             ''2.5000'', ''2.5000'', ''2.5000''],
            [''1.0'', ''2.0'']]"
  let ?fs = "corpus_with [line_header, line_neutral, line_short]"
  let ?d = "[[''10.0100'', ''11.3925'', ''Ses01F_impro01_F001'', ''neu'',
             ''2.5000'', ''2.5000'', ''2.5000''],
            [''14.8872'', ''18.0175'', ''Ses01F_impro01_F002'', ''neu'']]"
  have c8: "collect_data ?fs8 ''corpus'' = Inr ?d8" by code_simp
  have c4: "collect_data ?fs4 ''corpus'' = Inr ?d4" by code_simp
  have c2: "collect_data ?fs2 ''corpus'' = Inr ?d2" by code_simp
  have c: "collect_data ?fs ''corpus'' = Inr ?d" by code_simp
  have nd: "\<not> decimal_text ''Ses01F_impro01_F001''" by code_simp
  have a8: "init decimal_text ?fs8 ''corpus'' = Inl ValueError"
    using init_field_counts [OF c8, of decimal_text] by simp
  have a4: "init decimal_text ?fs4 ''corpus'' = Inl ValueError"
    using init_field_counts [OF c4, of decimal_text] by simp
  have a2: "\<not> (\<exists>ds. init decimal_text ?fs2 ''corpus'' = Inr ds)"
    using init_field_counts [OF c2, of decimal_text] by simp
  have "\<exists>ds. init decimal_text ?fs ''corpus'' = Inr ds"
    using init_field_counts [OF c, of decimal_text] nd by simp
  then obtain ds where ds: "init decimal_text ?fs ''corpus'' = Inr ds" ..
  from init_field_counts [OF c, of decimal_text ds] ds
  have len: "length (df ds) = length ?d"
    and rows: "\<forall>i<length ?d.
                audio_path (?d ! i ! 2) = Inr (df_file (df ds ! i))
                \<and> cell_text (df_start (df ds ! i)) = field (?d ! i) 0
                \<and> cell_text (df_end (df ds ! i)) = field (?d ! i) 1
                \<and> cell_text (df_activation (df ds ! i)) = field (?d ! i) 4
                \<and> cell_text (df_valence (df ds ! i)) = field (?d ! i) 5
                \<and> cell_text (df_dominance (df ds ! i)) = field (?d ! i) 6"
    by blast+
  from rows have "cell_text (df_start (df ds ! 1)) = field (?d ! 1) 0"
    and "cell_text (df_activation (df ds ! 1)) = field (?d ! 1) 4"
    by simp_all
  then have s1: "cell_text (df_start (df ds ! 1)) = Some ''14.8872''"
    and s2: "cell_text (df_activation (df ds ! 1)) = None"
    by (simp_all add: field_def)
  from len have l2: "length (df ds) = 2" by simp
  from c8 a8 c4 a4 c2 a2 c ds l2 s1 s2 show ?thesis by blast
qed

text \<open>
  Claim C7. After a construction that succeeds, the size of the data set is the number of
  the lines that begin with an opening bracket, over all the evaluation text files of the
  five sessions.
\<close>

theorem len_counts_bracketed_lines:
  "init castable fs r = Inr ds \<Longrightarrow> len ds = total_bracketed_lines fs r"
proof -
  assume "init castable fs r = Inr ds"
  then obtain data table where c: "collect_data fs r = Inr data"
    and d: "DataFrame castable data = Inr table" and f: "finish_table table = Inr (df ds)"
    by (rule init_Inr)
  from c have "length data = total_bracketed_lines fs r"
    unfolding collect_data_def total_bracketed_lines_def
    by (drule_tac read_sessions_length) simp
  with DataFrame_length [OF d] finish_table_length [OF f] show ?thesis
    by (simp add: len_def)
qed

theorem len_counts_bracketed_lines_witness:
  "init decimal_text (corpus_with [line_header, [NL], line_neutral, line_unknown_label])
     ''corpus''
   = Inr \<lparr>root = ''corpus'',
          df = [\<lparr>df_start = Number ''10.0100'', df_end = Number ''11.3925'',
                 df_file = ''Session1/sentences/wav/Ses01F_impro01/Ses01F_impro01_F001.wav'',
                 df_emotion = Some 8, df_activation = Number ''2.5000'',
                 df_valence = Number ''2.5000'', df_dominance = Number ''2.5000''\<rparr>,
                \<lparr>df_start = Number ''6.2901'', df_end = Number ''8.2357'',
                 df_file = ''Session1/sentences/wav/Ses01F_impro01/Ses01F_impro01_F000.wav'',
                 df_emotion = None, df_activation = Number ''2.5000'',
                 df_valence = Number ''2.5000'', df_dominance = Number ''2.5000''\<rparr>]\<rparr>
   \<and> total_bracketed_lines (corpus_with [line_header, [NL], line_neutral, line_unknown_label])
         ''corpus'' = 2"
proof -
  let ?fs = "corpus_with [line_header, [NL], line_neutral, line_unknown_label]"
  let ?ds = "\<lparr>root = ''corpus'',
          df = [\<lparr>df_start = Number ''10.0100'', df_end = Number ''11.3925'',
                 df_file = ''Session1/sentences/wav/Ses01F_impro01/Ses01F_impro01_F001.wav'',
                 df_emotion = Some 8, df_activation = Number ''2.5000'',
                 df_valence = Number ''2.5000'', df_dominance = Number ''2.5000''\<rparr>,
                \<lparr>df_start = Number ''6.2901'', df_end = Number ''8.2357'',
                 df_file = ''Session1/sentences/wav/Ses01F_impro01/Ses01F_impro01_F000.wav'',
                 df_emotion = None, df_activation = Number ''2.5000'',
                 df_valence = Number ''2.5000'', df_dominance = Number ''2.5000''\<rparr>]\<rparr>"
  have h: "init decimal_text ?fs ''corpus'' = Inr ?ds" by code_simp
  from len_counts_bracketed_lines [OF h] have "total_bracketed_lines ?fs ''corpus'' = 2"
    by (simp add: len_def)
  with h show ?thesis by (rule_tac conjI)
qed

text \<open>
  Claim C8. An integer index below 0 or not below the size is a \<^verbatim>\<open>KeyError\<close>: the table is
  read by label, so there is neither clamping nor counting from the end. For an index in the
  range the accessor loads the audio file of that row; when the loader returns, the sample
  has the path, the waveform and the rate of that file and the four labels of that row,
  and when the loader raises, so does the accessor.
\<close>

theorem getitem_index:
  "(idx < 0 \<or> int (len ds) \<le> idx \<longrightarrow> getitem load ds idx = Inl KeyError)
   \<and> (0 \<le> idx \<and> idx < int (len ds)
        \<and> load (os_path_join (root ds) [df_file (df ds ! nat idx)]) = Inr (w, rate)
      \<longrightarrow> getitem load ds idx =
            Inr \<lparr>path = os_path_join (root ds) [df_file (df ds ! nat idx)],
                 waveform = w, sample_rate = rate,
                 emotion = df_emotion (df ds ! nat idx),
                 activation = df_activation (df ds ! nat idx),
                 valence = df_valence (df ds ! nat idx),
                 dominance = df_dominance (df ds ! nat idx)\<rparr>)
   \<and> (0 \<le> idx \<and> idx < int (len ds)
        \<and> load (os_path_join (root ds) [df_file (df ds ! nat idx)]) = Inl e
      \<longrightarrow> getitem load ds idx = Inl e)"
  by (auto simp: getitem_def df_loc_def len_def Let_def)

theorem getitem_index_witness:
  "getitem example_load example_dataset (- 1) = Inl KeyError
   \<and> getitem example_load example_dataset 2 = Inl KeyError
   \<and> getitem example_load example_dataset 0
       = Inr \<lparr>path = ''corpus/Session1/sentences/wav/Ses01F_impro01/Ses01F_impro01_F001.wav'',
              waveform = Tensor2 3 [[1, 2, 3]], sample_rate = 16000, emotion = Some 8,
              activation = Number ''2.5000'', valence = Number ''2.5000'',
              dominance = Number ''2.5000''\<rparr>
   \<and> getitem example_load example_dataset 1 = Inl OSError"
proof -
  have n: "len example_dataset = 2" by (simp add: len_def example_dataset_def)
  have l0: "example_load (os_path_join (root example_dataset)
              [df_file (df example_dataset ! nat 0)]) = Inr (Tensor2 3 [[1, 2, 3]], 16000)"
    by code_simp
  have l1: "example_load (os_path_join (root example_dataset)
              [df_file (df example_dataset ! nat 1)]) = Inl OSError"
    by code_simp
  have a: "getitem example_load example_dataset (- 1) = Inl KeyError"
    using getitem_index [of "- 1" example_dataset example_load] by (simp add: n)
  have b: "getitem example_load example_dataset 2 = Inl KeyError"
    using getitem_index [of 2 example_dataset example_load] by (simp add: n)
  have c: "getitem example_load example_dataset 0
       = Inr \<lparr>path = ''corpus/Session1/sentences/wav/Ses01F_impro01/Ses01F_impro01_F001.wav'',
              waveform = Tensor2 3 [[1, 2, 3]], sample_rate = 16000, emotion = Some 8,
              activation = Number ''2.5000'', valence = Number ''2.5000'',
              dominance = Number ''2.5000''\<rparr>"
  proof -
    have p: "os_path_join (root example_dataset) [df_file (df example_dataset ! nat 0)]
             = ''corpus/Session1/sentences/wav/Ses01F_impro01/Ses01F_impro01_F001.wav''"
      by code_simp
    from getitem_index [of 0 example_dataset example_load "Tensor2 3 [[1, 2, 3]]" 16000] l0
    have "getitem example_load example_dataset 0 =
            Inr \<lparr>path = os_path_join (root example_dataset)
                          [df_file (df example_dataset ! nat 0)],
                 waveform = Tensor2 3 [[1, 2, 3]], sample_rate = 16000,
                 emotion = df_emotion (df example_dataset ! nat 0),
                 activation = df_activation (df example_dataset ! nat 0),
                 valence = df_valence (df example_dataset ! nat 0),
                 dominance = df_dominance (df example_dataset ! nat 0)\<rparr>"
      by (simp add: n)
    then show ?thesis
      unfolding p by (simp add: example_dataset_def)
  qed
  have d: "getitem example_load example_dataset 1 = Inl OSError"
    using getitem_index [of 1 example_dataset example_load _ _ OSError] l1 by (simp add: n)
  from a b c d show ?thesis by blast
qed

section \<open>The claims about the effects of the framer\<close>

text \<open>
  Claim C10. A call of the framer changes none of the objects that exist before it: the
  store after the call begins with the store before it, so that the dictionaries of the
  samples, their labels and the storage of their waveforms are as they were, and the batch
  reads back as the same samples. The tensor that is returned is at an address that was not
  in use before the call. The lemma \<open>collate_fn_st_refines\<close> relates this model to
  \<open>collate_fn\<close>: on a batch of samples in the store it returns the frames, or the error,
  that \<open>collate_fn\<close> gives for these samples.
\<close>

theorem collate_fn_st_frame:
  assumes "collate_fn_st h batch = (res, h')"
  shows "take (length h) h' = h
       \<and> (deref_batch h batch = Some items \<longrightarrow> deref_batch h' batch = Some items)
       \<and> (res = Inr r \<longrightarrow>
            \<not> present h r \<and> present h' r \<and> (\<exists>fs. h' ! r = FramesObj fs))"
proof -
  let ?h0 = "h @ [FramesObj []]"
  from assms have run: "collate_loop_st ?h0 batch (length h) = (res, h')"
    by (simp add: collate_fn_st_def alloc_def)
  note R = collate_loop_st_result [OF run]
  have p0: "take (length h) ?h0 = h" by simp
  from R have p1: "take (length ?h0) h' = ?h0" by blast
  have p: "take (length h) h' = h" by (rule prefix_trans [OF p0 p1])
  have g0: "get_frames ?h0 (length h) = Inr []" by (simp add: get_frames_iff)
  show ?thesis
  proof (intro conjI impI)
    show "take (length h) h' = h" by (rule p)
  next
    assume "deref_batch h batch = Some items"
    then show "deref_batch h' batch = Some items" by (rule deref_batch_prefix [OF p])
  next
    assume r: "res = Inr r"
    with R have "r = length h \<or> length ?h0 \<le> r" by blast
    then show "\<not> present h r" by (auto simp: present_def)
  next
    assume r: "res = Inr r"
    with R g0 obtain fs where "get_frames h' r = Inr fs" by blast
    then show "present h' r" by (simp add: get_frames_iff present_def)
  next
    assume r: "res = Inr r"
    with R g0 obtain fs where "get_frames h' r = Inr fs" by blast
    then show "\<exists>fs. h' ! r = FramesObj fs" by (auto simp: get_frames_iff)
  qed
qed

theorem collate_fn_st_frame_witness:
  "collate_fn_st example_store [1]
     = (Inr 5, example_store @
          [FramesObj [],
           TensorObj (Tensor2 641 [replicate 241 1 @ replicate 400 0]),
           FramesObj [[replicate 241 1 @ replicate 159 0]],
           FramesObj [[replicate 241 1 @ replicate 159 0]]])
   \<and> deref_batch example_store [1]
     = Some [\<lparr>path = ''corpus/a.wav'', waveform = Tensor2 241 [replicate 241 1],
              sample_rate = 16000, emotion = Some 8,
              activation = Number ''2.5000'', valence = Number ''2.5000'',
              dominance = Number ''2.5000''\<rparr>]
   \<and> deref_batch
         (example_store @
          [FramesObj [],
           TensorObj (Tensor2 641 [replicate 241 1 @ replicate 400 0]),
           FramesObj [[replicate 241 1 @ replicate 159 0]],
           FramesObj [[replicate 241 1 @ replicate 159 0]]]) [1]
     = Some [\<lparr>path = ''corpus/a.wav'', waveform = Tensor2 241 [replicate 241 1],
              sample_rate = 16000, emotion = Some 8,
              activation = Number ''2.5000'', valence = Number ''2.5000'',
              dominance = Number ''2.5000''\<rparr>]
   \<and> \<not> present example_store 5"
proof -
  let ?h' = "example_store @
          [FramesObj [],
           TensorObj (Tensor2 641 [replicate 241 1 @ replicate 400 0]),
           FramesObj [[replicate 241 1 @ replicate 159 0]],
           FramesObj [[replicate 241 1 @ replicate 159 0]]]"
  let ?items = "[\<lparr>path = ''corpus/a.wav'', waveform = Tensor2 241 [replicate 241 (1::real)],
              sample_rate = 16000, emotion = Some 8,
              activation = Number ''2.5000'', valence = Number ''2.5000'',
              dominance = Number ''2.5000''\<rparr>]"
  have run: "collate_fn_st example_store [1] = (Inr 5, ?h')" by code_simp
  have items: "deref_batch example_store [1] = Some ?items" by code_simp
  from collate_fn_st_frame [OF run, of ?items 5] items
  have "deref_batch ?h' [1] = Some ?items" and "\<not> present example_store 5" by blast+
  with run items show ?thesis by blast
qed

text \<open>
  Claim C9. Two calls of the framer on the same batch give the same frames. The second call
  runs in the store that the first one has left: it finds the waveforms as they were,
  returns a tensor at another address, and after it both tensors hold the same frames, in
  the same order; when the first call raises, the second raises the same error. More
  generally the outcome is the same for any two calls, in any two stores, on batches whose
  samples have the same waveforms in the same order, whatever their other fields and
  their addresses are.
\<close>

theorem collate_fn_st_deterministic:
  assumes items: "deref_batch h batch = Some items"
    and run1: "collate_fn_st h batch = (res1, h1)"
  shows "(collate_fn_st h1 batch = (res2, h2) \<longrightarrow>
            (case res1 of
               Inl e \<Rightarrow> res2 = Inl e
             | Inr r1 \<Rightarrow> \<exists>r2 fs. res2 = Inr r2 \<and> r2 \<noteq> r1
                          \<and> get_frames h2 r1 = Inr fs \<and> get_frames h2 r2 = Inr fs))
       \<and> (deref_batch h' batch' = Some items' \<and> map waveform items' = map waveform items
           \<and> collate_fn_st h' batch' = (res', h1') \<longrightarrow>
            (case res1 of
               Inl e \<Rightarrow> res' = Inl e
             | Inr r1 \<Rightarrow> \<exists>r' fs. res' = Inr r'
                          \<and> get_frames h1 r1 = Inr fs \<and> get_frames h1' r' = Inr fs))"
proof (intro conjI impI)
  note ref1 = collate_fn_st_refines [OF items run1]
  {
    fix k k1 bt its rs
    assume d: "deref_batch k bt = Some its" and w: "map waveform its = map waveform items"
      and run: "collate_fn_st k bt = (rs, k1)"
    have same: "collate_fn its = collate_fn items" by (rule collate_fn_waveforms [OF w])
    note ref = collate_fn_st_refines [OF d run]
    have "case res1 of
            Inl e \<Rightarrow> rs = Inl e
          | Inr r1 \<Rightarrow> \<exists>r' fs. rs = Inr r' \<and> get_frames h1 r1 = Inr fs
                         \<and> get_frames k1 r' = Inr fs"
    proof (cases "collate_fn items")
      case (Inl e)
      with ref1 ref same show ?thesis by simp
    next
      case (Inr fs)
      with ref1 ref same show ?thesis by auto
    qed
  } note general = this
  {
    assume "deref_batch h' batch' = Some items' \<and> map waveform items' = map waveform items
            \<and> collate_fn_st h' batch' = (res', h1')"
    then show "case res1 of
               Inl e \<Rightarrow> res' = Inl e
             | Inr r1 \<Rightarrow> \<exists>r' fs. res' = Inr r'
                          \<and> get_frames h1 r1 = Inr fs \<and> get_frames h1' r' = Inr fs"
      using general by blast
  }
  {
    assume run2: "collate_fn_st h1 batch = (res2, h2)"
    note p1 = collate_fn_st_effect(1) [OF run1]
    note p2 = collate_fn_st_effect(1) [OF run2]
    have d1: "deref_batch h1 batch = Some items" by (rule deref_batch_prefix [OF p1 items])
    note g = general [OF d1 refl run2]
    show "case res1 of
               Inl e \<Rightarrow> res2 = Inl e
             | Inr r1 \<Rightarrow> \<exists>r2 fs. res2 = Inr r2 \<and> r2 \<noteq> r1
                          \<and> get_frames h2 r1 = Inr fs \<and> get_frames h2 r2 = Inr fs"
    proof (cases res1)
      case (Inl e)
      with g show ?thesis by simp
    next
      case (Inr r1)
      with g obtain r2 fs where r2: "res2 = Inr r2" and f1: "get_frames h1 r1 = Inr fs"
        and f2: "get_frames h2 r2 = Inr fs" by auto
      from collate_fn_st_effect(2) [OF run2 r2] have "\<not> present h1 r2" by simp
      moreover from f1 have "present h1 r1" by (simp add: get_frames_iff present_def)
      ultimately have "r2 \<noteq> r1" by auto
      moreover have "get_frames h2 r1 = Inr fs" by (rule get_frames_prefix [OF p2 f1])
      ultimately show ?thesis using Inr r2 f2 by simp
    qed
  }
qed

theorem collate_fn_st_deterministic_witness:
  "deref_batch example_store [1]
     = Some [\<lparr>path = ''corpus/a.wav'', waveform = Tensor2 241 [replicate 241 1],
              sample_rate = 16000, emotion = Some 8,
              activation = Number ''2.5000'', valence = Number ''2.5000'',
              dominance = Number ''2.5000''\<rparr>]
   \<and> fst (collate_fn_st example_store [1]) = Inr 5
   \<and> fst (collate_fn_st (snd (collate_fn_st example_store [1])) [1]) = Inr 9
   \<and> get_frames (snd (collate_fn_st (snd (collate_fn_st example_store [1])) [1])) 5
       = Inr [[replicate 241 1 @ replicate 159 0]]
   \<and> get_frames (snd (collate_fn_st (snd (collate_fn_st example_store [1])) [1])) 9
       = Inr [[replicate 241 1 @ replicate 159 0]]"
proof -
  let ?items = "[\<lparr>path = ''corpus/a.wav'', waveform = Tensor2 241 [replicate 241 (1::real)],
              sample_rate = 16000, emotion = Some 8,
              activation = Number ''2.5000'', valence = Number ''2.5000'',
              dominance = Number ''2.5000''\<rparr>]"
  let ?h1 = "snd (collate_fn_st example_store [1])"
  let ?h2 = "snd (collate_fn_st ?h1 [1])"
  have items: "deref_batch example_store [1] = Some ?items" by code_simp
  have r1: "fst (collate_fn_st example_store [1]) = Inr 5" by code_simp
  have r2: "fst (collate_fn_st ?h1 [1]) = Inr 9" by code_simp
  have f1: "get_frames ?h2 5 = Inr [[replicate 241 1 @ replicate 159 0]]" by code_simp
  have run1: "collate_fn_st example_store [1] = (Inr 5, ?h1)"
    using r1 by (simp add: prod_eq_iff)
  have run2: "collate_fn_st ?h1 [1] = (Inr 9, ?h2)"
    using r2 by (simp add: prod_eq_iff)
  have "collate_fn_st ?h1 [1] = (Inr 9, ?h2) \<longrightarrow>
          (\<exists>r2 fs. (Inr 9 :: error + addr) = Inr r2 \<and> r2 \<noteq> 5
             \<and> get_frames ?h2 5 = Inr fs \<and> get_frames ?h2 r2 = Inr fs)"
    using collate_fn_st_deterministic [OF items run1, of "Inr 9" ?h2, THEN conjunct1]
    by simp
  with run2 obtain fs where "get_frames ?h2 5 = Inr fs" and "get_frames ?h2 9 = Inr fs"
    by blast
  with f1 have "get_frames ?h2 9 = Inr [[replicate 241 1 @ replicate 159 0]]" by simp
  with items r1 r2 f1 show ?thesis by blast
qed

end
